theory Spec2Isabelle
  imports Main "HOL-Library.AList"
begin

section \<open>Typed scaler configuration (pkg/scalers/scalersconfig/typed\_config.go)\<close>

text \<open>
  A Go \<open>string\<close> is a sequence of bytes and is modelled by \<^typ>\<open>string\<close>, a list of
  8-bit characters.  Go maps from string to string are partial functions; a nil map reads
  like an empty one.
\<close>

subsection \<open>The string functions of Go's library that the code calls\<close>

text \<open>\<open>strings.Split(s, sep)\<close> for a separator of one byte: \<open>n\<close> separators give
  \<open>n + 1\<close> pieces, and the empty string gives one empty piece.  The result is never
  empty, so the last case of the second equation does not arise.\<close>

fun Split :: "string \<Rightarrow> char \<Rightarrow> string list" where
  "Split [] sep = [[]]"
| "Split (c # cs) sep =
     (if c = sep then [] # Split cs sep
      else (case Split cs sep of p # ps \<Rightarrow> (c # p) # ps | [] \<Rightarrow> [[c]]))"

lemma Split_not_Nil: "Split s sep \<noteq> []"
  by (induction s) (auto split: list.splits)

lemma length_Split: "length (Split s sep) = Suc (length (filter (\<lambda>c. c = sep) s))"
  by (induction s) (auto split: list.splits)

declare Split.simps [simp del]

text \<open>The white space of \<open>unicode.IsSpace\<close>, each rune in its UTF-8 encoding: the six
  ASCII characters, U+0085, U+00A0, U+1680, U+2000 to U+200A, U+2028, U+2029, U+202F,
  U+205F and U+3000.\<close>

definition space_runes :: "string list" where
  "space_runes =
     [[CHR 0x09], [CHR 0x0A], [CHR 0x0B], [CHR 0x0C], [CHR 0x0D], [CHR 0x20],
      [CHR 0xC2, CHR 0x85], [CHR 0xC2, CHR 0xA0],
      [CHR 0xE1, CHR 0x9A, CHR 0x80],
      [CHR 0xE2, CHR 0x80, CHR 0x80], [CHR 0xE2, CHR 0x80, CHR 0x81],
      [CHR 0xE2, CHR 0x80, CHR 0x82], [CHR 0xE2, CHR 0x80, CHR 0x83],
      [CHR 0xE2, CHR 0x80, CHR 0x84], [CHR 0xE2, CHR 0x80, CHR 0x85],
      [CHR 0xE2, CHR 0x80, CHR 0x86], [CHR 0xE2, CHR 0x80, CHR 0x87],
      [CHR 0xE2, CHR 0x80, CHR 0x88], [CHR 0xE2, CHR 0x80, CHR 0x89],
      [CHR 0xE2, CHR 0x80, CHR 0x8A],
      [CHR 0xE2, CHR 0x80, CHR 0xA8], [CHR 0xE2, CHR 0x80, CHR 0xA9],
      [CHR 0xE2, CHR 0x80, CHR 0xAF],
      [CHR 0xE2, CHR 0x81, CHR 0x9F],
      [CHR 0xE3, CHR 0x80, CHR 0x80]]"

text \<open>The number of bytes of the white-space rune that \<open>s\<close> starts with, 0 when it
  starts with none (the encodings above are the only byte sequences that decode to
  these runes).\<close>

fun rune_width :: "string list \<Rightarrow> string \<Rightarrow> nat" where
  "rune_width [] s = 0"
| "rune_width (r # rs) s =
     (if r \<noteq> [] \<and> take (length r) s = r then length r else rune_width rs s)"

function strip_runes :: "string list \<Rightarrow> string \<Rightarrow> string" where
  "strip_runes rs s =
     (if rune_width rs s = 0 then s else strip_runes rs (drop (rune_width rs s) s))"
  by pat_completeness auto

lemma rune_width_le: "rune_width rs s \<le> length s"
proof (induction rs)
  case Nil
  show ?case by simp
next
  case (Cons r rs)
  have "length r \<le> length s" if "take (length r) s = r"
  proof -
    from that have "length (take (length r) s) = length r" by simp
    then show ?thesis by simp
  qed
  with Cons show ?case by simp
qed

termination strip_runes
proof (relation "measure (\<lambda>(rs, s). length s)")
  show "wf (measure (\<lambda>(rs, s). length s))" by simp
next
  fix rs :: "string list" and s :: string
  assume "rune_width rs s \<noteq> 0"
  moreover have "rune_width rs s \<le> length s" by (rule rune_width_le)
  ultimately show "((rs, drop (rune_width rs s) s), (rs, s)) \<in> measure (\<lambda>(rs, s). length s)"
    by simp
qed

declare strip_runes.simps [simp del]

text \<open>\<open>strings.TrimSpace\<close>: the white-space runes at the start are removed, then
  those at the end of what is left (a rune at the end is found reading backwards, which
  is a match of the reversed encoding on the reversed string).\<close>

definition TrimSpace :: "string \<Rightarrow> string" where
  "TrimSpace s =
     rev (strip_runes (map rev space_runes) (rev (strip_runes space_runes s)))"

subsection \<open>Parsing order, parameters and the scaler configuration\<close>

text \<open>\<open>type ParsingOrder string\<close> with its three constants.\<close>

type_synonym ParsingOrder = string

definition TriggerMetadataPO :: ParsingOrder where
  "TriggerMetadataPO = ''triggerMetadata''"

definition ResolvedEnvPO :: ParsingOrder where
  "ResolvedEnvPO = ''resolvedEnv''"

definition AuthParamsPO :: ParsingOrder where
  "AuthParamsPO = ''authParams''"

text \<open>The separators of the field tag and of map and slice elements.\<close>

definition tagSeparator :: char where "tagSeparator = CHR '',''"
definition tagKeySeparator :: char where "tagKeySeparator = CHR ''=''"
definition tagValueSeparator :: char where "tagValueSeparator = CHR '';''"
definition elemSeparator :: char where "elemSeparator = CHR '',''"
definition elemKeyValSeparator :: char where "elemKeyValSeparator = CHR ''=''"

text \<open>The parameters of the field tag.\<close>

definition optionalTag :: string where "optionalTag = ''optional''"
definition deprecatedTag :: string where "deprecatedTag = ''deprecated''"
definition defaultTag :: string where "defaultTag = ''default''"
definition parsingOrderTag :: string where "parsingOrderTag = ''parsingOrder''"
definition nameTag :: string where "nameTag = ''name''"

record Params =
  Name :: string
  Optional :: bool
  ParsingOrder :: "ParsingOrder list"
  Default :: string
  Deprecated :: string

definition IsDeprecated :: "Params \<Rightarrow> bool" where
  "IsDeprecated p \<longleftrightarrow> Deprecated p \<noteq> []"

definition DeprecatedMessage :: "Params \<Rightarrow> string" where
  "DeprecatedMessage p =
     (if Deprecated p = deprecatedTag then [] else '': '' @ Deprecated p)"

text \<open>
  Modelled from the spec: the struct \<open>ScalerConfig\<close> is declared outside the files at
  hand.  The code and the tests read three of its fields, each a
  \<open>map[string]string\<close>: the three string-keyed sources of the source bundle.
\<close>

record ScalerConfig =
  TriggerMetadata :: "string \<rightharpoonup> string"
  ResolvedEnv :: "string \<rightharpoonup> string"
  AuthParams :: "string \<rightharpoonup> string"

text \<open>The one-result index expression \<open>m[key]\<close>: the empty string for a key that is
  not in the map.\<close>

definition index_or_empty :: "(string \<rightharpoonup> string) \<Rightarrow> string \<Rightarrow> string" where
  "index_or_empty m key = (case m key of Some v \<Rightarrow> v | None \<Rightarrow> [])"

subsection \<open>configParamValue\<close>

text \<open>The \<open>switch\<close> of the loop body: the map and the key that one entry of the
  parsing order reads.\<close>

definition source_of :: "ScalerConfig \<Rightarrow> string \<Rightarrow> ParsingOrder \<Rightarrow> (string \<rightharpoonup> string) \<times> string" where
  "source_of sc name po =
     (if po = TriggerMetadataPO then (TriggerMetadata sc, name)
      else if po = AuthParamsPO then (AuthParams sc, name)
      else if po = ResolvedEnvPO then
        (ResolvedEnv sc, index_or_empty (TriggerMetadata sc) (name @ ''FromEnv''))
      else (TriggerMetadata sc, name))"

fun configParamValue_loop :: "ScalerConfig \<Rightarrow> string \<Rightarrow> ParsingOrder list \<Rightarrow> string \<times> bool" where
  "configParamValue_loop sc name [] = ([], False)"
| "configParamValue_loop sc name (po # pos) =
     (case source_of sc name po of
        (m, key) \<Rightarrow>
          (case m key of
             Some param \<Rightarrow>
               if param \<noteq> [] then (param, True) else configParamValue_loop sc name pos
           | None \<Rightarrow> configParamValue_loop sc name pos))"

definition configParamValue :: "ScalerConfig \<Rightarrow> Params \<Rightarrow> string \<times> bool" where
  "configParamValue sc params = configParamValue_loop sc (Name params) (ParsingOrder params)"

subsection \<open>paramsFromTag\<close>

text \<open>One round of the loop over the clauses of the tag: \<open>Inl key\<close> for a clause whose
  key is unknown, the updated parameters otherwise.  \<open>Split\<close> returns at least one
  piece, so \<open>tsplit[0]\<close> is always there; \<open>tsplit[1]\<close> is read under the length tests
  of the code.\<close>

definition paramsFromTag_clause :: "string \<Rightarrow> Params \<Rightarrow> string + Params" where
  "paramsFromTag_clause ts params =
     (let tsplit = Split ts tagKeySeparator;
          key = TrimSpace (tsplit ! 0)
      in if key = optionalTag then
           Inr (if length tsplit = 1 then params\<lparr>Optional := True\<rparr>
                else params\<lparr>Optional := (TrimSpace (tsplit ! 1) = ''true'')\<rparr>)
         else if key = parsingOrderTag then
           Inr (if length tsplit > 1
                then params\<lparr>ParsingOrder :=
                       ParsingOrder params @ map TrimSpace (Split (tsplit ! 1) tagValueSeparator)\<rparr>
                else params)
         else if key = nameTag then
           Inr (if length tsplit > 1 then params\<lparr>Name := TrimSpace (tsplit ! 1)\<rparr> else params)
         else if key = deprecatedTag then
           Inr (if length tsplit = 1 then params\<lparr>Deprecated := deprecatedTag\<rparr>
                else params\<lparr>Deprecated := TrimSpace (tsplit ! 1)\<rparr>)
         else if key = defaultTag then
           Inr (if length tsplit > 1 then params\<lparr>Default := TrimSpace (tsplit ! 1)\<rparr> else params)
         else Inl key)"

text \<open>The loop; on an unknown key the function returns the parameters read so far
  together with the error \<open>unknown tag <key>: <tag>\<close>.\<close>

fun paramsFromTag_loop :: "string \<Rightarrow> string list \<Rightarrow> Params \<Rightarrow> Params \<times> string option" where
  "paramsFromTag_loop tag [] params = (params, None)"
| "paramsFromTag_loop tag (ts # tagSplit) params =
     (case paramsFromTag_clause ts params of
        Inl key \<Rightarrow> (params, Some (''unknown tag '' @ key @ '': '' @ tag))
      | Inr params' \<Rightarrow> paramsFromTag_loop tag tagSplit params')"

text \<open>Of the struct field the function reads the name only.\<close>

definition paramsFromTag :: "string \<Rightarrow> string \<Rightarrow> Params \<times> string option" where
  "paramsFromTag tag fieldName =
     paramsFromTag_loop tag (Split tag tagSeparator)
       \<lparr>Name = fieldName, Optional = False, ParsingOrder = [], Default = [], Deprecated = []\<rparr>"

subsection \<open>Field types and field values, as reflection shows them\<close>

text \<open>
  The type of a field.  \<open>TNamed n\<close> is a defined type whose underlying type is
  \<open>string\<close>; \<open>TAny\<close> is the empty interface; \<open>TByte\<close> and \<open>TRune\<close> are \<open>uint8\<close> and
  \<open>int32\<close>, whose slices a string converts to; \<open>TMap\<close> and \<open>TSlice\<close> are the types of
  kind map and slice; \<open>TOther n\<close> is any other type (a float, a struct, a pointer, an
  integer type of another width, ...), given by the text that \<open>%v\<close> prints for it.
\<close>

datatype gtype =
    TString
  | TNamed string
  | TAny
  | TInt
  | TBool
  | TByte
  | TRune
  | TOther string
  | TMap gtype gtype
  | TSlice gtype

text \<open>
  The value of a field.  \<open>VNil\<close> is the nil map, slice or interface.  A map is the list
  of its entries in the order of their first insertion.  \<open>VConv ty s\<close> is the string
  \<open>s\<close> converted to the type \<open>ty\<close> (\<open>reflect.Value.Convert\<close>).  \<open>VOpaque\<close> is a value of a
  type \<open>TOther\<close>, which the model does not look into, and \<open>VZero n\<close> the zero value of
  \<open>TOther n\<close>.
\<close>

datatype gval =
    VString string
  | VInt int
  | VBool bool
  | VNil
  | VMap "(gval \<times> gval) list"
  | VSlice "gval list"
  | VConv gtype string
  | VOpaque string
  | VZero string

text \<open>The value that \<open>reflect.New(t).Elem()\<close> holds.\<close>

fun zero :: "gtype \<Rightarrow> gval" where
  "zero TString = VString []"
| "zero (TNamed n) = VConv (TNamed n) []"
| "zero TAny = VNil"
| "zero TInt = VInt 0"
| "zero TBool = VBool False"
| "zero TByte = VInt 0"
| "zero TRune = VInt 0"
| "zero (TOther n) = VZero n"
| "zero (TMap k v) = VNil"
| "zero (TSlice e) = VNil"

text \<open>What \<open>%v\<close> prints for a \<open>reflect.Type\<close>.\<close>

fun type_string :: "gtype \<Rightarrow> string" where
  "type_string TString = ''string''"
| "type_string (TNamed n) = n"
| "type_string TAny = ''interface {}''"
| "type_string TInt = ''int''"
| "type_string TBool = ''bool''"
| "type_string TByte = ''uint8''"
| "type_string TRune = ''int32''"
| "type_string (TOther n) = n"
| "type_string (TMap k v) = ''map['' @ type_string k @ '']'' @ type_string v"
| "type_string (TSlice e) = ''[]'' @ type_string e"

text \<open>The elements of a slice value, and \<open>reflect.Append\<close> of one element.\<close>

fun elems :: "gval \<Rightarrow> gval list" where
  "elems (VSlice xs) = xs"
| "elems v = []"

definition Append :: "gval \<Rightarrow> gval \<Rightarrow> gval" where
  "Append s x = VSlice (elems s @ [x])"

text \<open>\<open>%d\<close> of a slice index.\<close>

function Itoa :: "nat \<Rightarrow> string" where
  "Itoa n = (if n < 10 then [''0123456789'' ! n] else Itoa (n div 10) @ [''0123456789'' ! (n mod 10)])"
  by pat_completeness auto
termination
  by (relation "measure id") auto

declare Itoa.simps [simp del]

text \<open>\<open>%v\<close> of a \<open>[]ParsingOrder\<close>: the elements between brackets, one space apart.\<close>

fun join_space :: "string list \<Rightarrow> string" where
  "join_space [] = []"
| "join_space [x] = x"
| "join_space (x # y # ys) = x @ '' '' @ join_space (y # ys)"

definition show_order :: "ParsingOrder list \<Rightarrow> string" where
  "show_order pos = ''['' @ join_space pos @ '']''"

subsection \<open>The library functions taken as parameters\<close>

text \<open>
  What \<open>json.Unmarshal\<close> does to the holder \<open>ifc\<close>, an interface that holds a pointer to
  a new value of the field's type: it returns an error (\<open>JErr\<close> with its text); or it
  returns nil and has decoded a value into what the pointer points to (\<open>JVal\<close>); or, on
  the literal \<open>null\<close> for a type that is no pointer, it returns nil and has set the
  interface itself to nil (\<open>JNull\<close>), after which \<open>reflect.ValueOf(ifc).Elem()\<close> panics.
\<close>

datatype jres = JErr string | JNull | JVal gval

text \<open>The two functions of Go's library that the model takes as they are: the verb \<open>%q\<close>
  of \<open>fmt\<close> on a string, and \<open>json.Unmarshal\<close> by the type of the field.\<close>

record golib =
  fmt_q :: "string \<Rightarrow> string"
  json_Unmarshal :: "gtype \<Rightarrow> string \<Rightarrow> jres"

text \<open>What a call does besides changing the field: it returns nil, returns an error, or
  panics.\<close>

datatype outcome = NoError | Error string | Panic

subsection \<open>setConfigValueHelper\<close>

text \<open>
  \<open>setConfigValueHelper L valFromConfig ty settable cur\<close>: the field has type \<open>ty\<close> and
  value \<open>cur\<close>; \<open>settable\<close> says that it may be set and read through reflection (a field
  of the struct that is exported, or a holder made by \<open>reflect.New\<close>).  The result is
  the value of the field after the call and what the call returned.

  The last branch of the code is the one for every type that a string is neither
  assignable nor convertible to and whose kind is neither map nor slice.
\<close>

definition unmarshal_field :: "golib \<Rightarrow> string \<Rightarrow> gtype \<Rightarrow> bool \<Rightarrow> gval \<Rightarrow> gval \<times> outcome" where
  "unmarshal_field L valFromConfig ty settable cur =
     (if settable then
        (case json_Unmarshal L ty valFromConfig of
           JErr err \<Rightarrow>
             (cur, Error (''unable to unmarshal to field type '' @ type_string ty @ '': '' @ err))
         | JNull \<Rightarrow> (cur, Panic)
         | JVal x \<Rightarrow> (x, NoError))
      else (cur, Error (''unable to find matching parser for field type '' @ type_string ty)))"

function setConfigValueHelper :: "golib \<Rightarrow> string \<Rightarrow> gtype \<Rightarrow> bool \<Rightarrow> gval \<Rightarrow> gval \<times> outcome"
  and map_loop :: "golib \<Rightarrow> gtype \<Rightarrow> gtype \<Rightarrow> string list \<Rightarrow> (gval \<times> gval) list \<Rightarrow> gval \<times> outcome"
  and slice_loop :: "golib \<Rightarrow> gtype \<Rightarrow> bool \<Rightarrow> string list \<Rightarrow> nat \<Rightarrow> gval \<Rightarrow> gval \<Rightarrow> gval \<times> outcome"
where
  \<comment> \<open>a string is assignable to \<open>string\<close>: \<open>field.SetString\<close>\<close>
  "setConfigValueHelper L valFromConfig TString settable cur =
     (if settable then (VString valFromConfig, NoError) else (cur, Panic))"
  \<comment> \<open>a string is assignable to the empty interface, and \<open>SetString\<close> panics on a value
      of kind interface\<close>
| "setConfigValueHelper L valFromConfig TAny settable cur = (cur, Panic)"
  \<comment> \<open>a string is convertible to a defined string type: \<open>field.Set(paramValue.Convert(...))\<close>\<close>
| "setConfigValueHelper L valFromConfig (TNamed n) settable cur =
     (if settable then (VConv (TNamed n) valFromConfig, NoError) else (cur, Panic))"
  \<comment> \<open>kind map: the field is set to a new map, then filled clause by clause\<close>
| "setConfigValueHelper L valFromConfig (TMap kt vt) settable cur =
     (if settable then map_loop L kt vt (Split valFromConfig elemSeparator) []
      else (cur, Panic))"
  \<comment> \<open>a string is convertible to \<open>[]byte\<close> and \<open>[]rune\<close>; every other slice is appended
      to, element by element, through one holder made before the loop\<close>
| "setConfigValueHelper L valFromConfig (TSlice et) settable cur =
     (if et = TByte \<or> et = TRune then
        (if settable then (VConv (TSlice et) valFromConfig, NoError) else (cur, Panic))
      else slice_loop L et settable (Split valFromConfig elemSeparator) 0 (zero et) cur)"
| "setConfigValueHelper L valFromConfig TInt settable cur =
     unmarshal_field L valFromConfig TInt settable cur"
| "setConfigValueHelper L valFromConfig TBool settable cur =
     unmarshal_field L valFromConfig TBool settable cur"
| "setConfigValueHelper L valFromConfig TByte settable cur =
     unmarshal_field L valFromConfig TByte settable cur"
| "setConfigValueHelper L valFromConfig TRune settable cur =
     unmarshal_field L valFromConfig TRune settable cur"
| "setConfigValueHelper L valFromConfig (TOther n) settable cur =
     unmarshal_field L valFromConfig (TOther n) settable cur"
  \<comment> \<open>the loop over the clauses of a map; \<open>m\<close> is the map that the field holds\<close>
| "map_loop L kt vt [] m = (VMap m, NoError)"
| "map_loop L kt vt (s # split) m =
     (let s' = TrimSpace s; kv = Split s' elemKeyValSeparator in
      if length kv \<noteq> 2 then
        (VMap m, Error (''expected format key'' @ [elemKeyValSeparator] @ ''value, got '' @ fmt_q L s'))
      else
        (let key = TrimSpace (kv ! 0); val = TrimSpace (kv ! 1) in
         case setConfigValueHelper L key kt True (zero kt) of
           (ifcKeyElem, Error err) \<Rightarrow> (VMap m, Error (''map key '' @ fmt_q L key @ '': '' @ err))
         | (ifcKeyElem, Panic) \<Rightarrow> (VMap m, Panic)
         | (ifcKeyElem, NoError) \<Rightarrow>
             (case setConfigValueHelper L val vt True (zero vt) of
                (ifcValueElem, Error err) \<Rightarrow>
                  (VMap m, Error (''map key '' @ fmt_q L key @ '', value '' @ fmt_q L val @ '': '' @ err))
              | (ifcValueElem, Panic) \<Rightarrow> (VMap m, Panic)
              | (ifcValueElem, NoError) \<Rightarrow>
                  map_loop L kt vt split (AList.update ifcKeyElem ifcValueElem m))))"
  \<comment> \<open>the loop over the elements of a slice; \<open>elemIfc\<close> is the value of the holder and
      \<open>cur\<close> the slice that the field holds\<close>
| "slice_loop L et settable [] i elemIfc cur = (cur, NoError)"
| "slice_loop L et settable (s # split) i elemIfc cur =
     (let s' = TrimSpace s in
      case setConfigValueHelper L s' et True elemIfc of
        (elemIfc', Error err) \<Rightarrow> (cur, Error (''slice element '' @ Itoa i @ '': '' @ err))
      | (elemIfc', Panic) \<Rightarrow> (cur, Panic)
      | (elemIfc', NoError) \<Rightarrow>
          if settable then slice_loop L et settable split (Suc i) elemIfc' (Append cur elemIfc')
          else (cur, Panic))"
  by pat_completeness auto

termination setConfigValueHelper
  by (relation "measures
        [\<lambda>x. case x of
               Inl (L, v, ty, w, c) \<Rightarrow> 2 * size ty
             | Inr (Inl (L, kt, vt, l, m)) \<Rightarrow> 2 * (size kt + size vt) + 1
             | Inr (Inr (L, et, w, l, i, h, c)) \<Rightarrow> 2 * size et + 1,
         \<lambda>x. case x of
               Inl (L, v, ty, w, c) \<Rightarrow> 0
             | Inr (Inl (L, kt, vt, l, m)) \<Rightarrow> length l
             | Inr (Inr (L, et, w, l, i, h, c)) \<Rightarrow> length l]")
     simp_all

subsection \<open>setValue\<close>

text \<open>
  A field of the target struct: the name and the \<open>keda\<close> tag of its
  \<open>reflect.StructField\<close> (the empty string when it has no such tag), and its
  \<open>reflect.Value\<close>: the type, whether the field is exported, and the value it holds.
\<close>

record Field =
  fieldName :: string
  tag :: string
  ftype :: gtype
  exported :: bool
  fval :: gval

definition setValue :: "golib \<Rightarrow> ScalerConfig \<Rightarrow> Field \<Rightarrow> Params \<Rightarrow> Field \<times> outcome" where
  "setValue L sc field params =
     (case configParamValue sc params of
        (valFromConfig, exists) \<Rightarrow>
          if exists \<and> IsDeprecated params then
            (field, Error (''parameter '' @ fmt_q L (Name params) @ '' is deprecated''
                           @ DeprecatedMessage params))
          else
            (case (if \<not> exists \<and> Default params \<noteq> [] then (Default params, True)
                   else (valFromConfig, exists)) of
               (valFromConfig, exists) \<Rightarrow>
                 if \<not> exists \<and> (Optional params \<or> IsDeprecated params) then (field, NoError)
                 else if \<not> exists \<and> \<not> (Optional params \<or> IsDeprecated params) then
                   (field, Error (''missing required parameter '' @ fmt_q L (Name params)
                                  @ '' in '' @ show_order (ParsingOrder params)))
                 else
                   (case setConfigValueHelper L valFromConfig (ftype field) (exported field)
                           (fval field) of
                      (v, Error err) \<Rightarrow>
                        (field\<lparr>fval := v\<rparr>,
                         Error (''unable to set param '' @ fmt_q L (Name params) @ '' value ''
                                @ fmt_q L valFromConfig @ '': '' @ err))
                    | (v, Panic) \<Rightarrow> (field\<lparr>fval := v\<rparr>, Panic)
                    | (v, NoError) \<Rightarrow> (field\<lparr>fval := v\<rparr>, NoError))))"

subsection \<open>TypedConfig\<close>

text \<open>
  What the caller passes as \<open>typedConfig\<close>: the nil interface, a value that is no
  pointer, a pointer to something that is no struct, a nil pointer to a struct type with
  so many fields, or a pointer to a struct with these fields.
\<close>

datatype target =
    NilInterface
  | NonPointer
  | PtrToNonStruct
  | NilPtrToStruct nat
  | PtrToStruct "Field list"

text \<open>
  What the call returns: nil, one error, or the aggregate of \<open>kerrors.NewAggregate\<close>,
  which keeps the list of the errors it was made from (its method \<open>Errors\<close> returns
  them); or the call panics.  \<open>NewAggregate\<close> is a function of
  \<open>k8s.io/apimachinery\<close>: it returns nil for an empty list, and no error of the list
  that the code builds is nil.
\<close>

datatype result = RNil | RError string | RAggregate "string list" | RPanic

definition NewAggregate :: "string list \<Rightarrow> result" where
  "NewAggregate errlist = (if errlist = [] then RNil else RAggregate errlist)"

text \<open>The body of the loop over the fields.\<close>

definition TypedConfig_field :: "golib \<Rightarrow> ScalerConfig \<Rightarrow> Field \<Rightarrow> Field \<times> outcome" where
  "TypedConfig_field L sc field =
     (if tag field = [] then (field, NoError)
      else
        (case paramsFromTag (tag field) (fieldName field) of
           (tagParams, Some err) \<Rightarrow> (field, Error err)
         | (tagParams, None) \<Rightarrow> setValue L sc field tagParams))"

text \<open>The loop: the fields from the current one on and the errors so far; it returns
  these fields as the loop leaves them.  A panic ends the loop.\<close>

fun TypedConfig_loop :: "golib \<Rightarrow> ScalerConfig \<Rightarrow> Field list \<Rightarrow> string list \<Rightarrow> Field list \<times> result" where
  "TypedConfig_loop L sc [] errors = ([], NewAggregate errors)"
| "TypedConfig_loop L sc (field # flds) errors =
     (case TypedConfig_field L sc field of
        (field', Panic) \<Rightarrow> (field' # flds, RPanic)
      | (field', Error err) \<Rightarrow>
          (case TypedConfig_loop L sc flds (errors @ [err]) of
             (flds', r) \<Rightarrow> (field' # flds', r))
      | (field', NoError) \<Rightarrow>
          (case TypedConfig_loop L sc flds errors of
             (flds', r) \<Rightarrow> (field' # flds', r)))"

definition TypedConfig :: "golib \<Rightarrow> ScalerConfig \<Rightarrow> target \<Rightarrow> target \<times> result" where
  "TypedConfig L sc typedConfig =
     (case typedConfig of
        NilInterface \<Rightarrow> (typedConfig, RPanic)
      | NonPointer \<Rightarrow> (typedConfig, RError ''typedConfig must be a pointer'')
      | PtrToNonStruct \<Rightarrow> (typedConfig, RPanic)
      | NilPtrToStruct n \<Rightarrow> (typedConfig, if n = 0 then NewAggregate [] else RPanic)
      | PtrToStruct flds \<Rightarrow>
          (case TypedConfig_loop L sc flds [] of
             (flds', r) \<Rightarrow> (PtrToStruct flds', r)))"

subsection \<open>An instance of the library functions, for running the tests\<close>

text \<open>
  \<open>%q\<close> on a string of printable ASCII characters other than the double quote and the
  backslash puts the string between double quotes.
\<close>

definition quote_plain :: "string \<Rightarrow> string" where
  "quote_plain s = [CHR 0x22] @ s @ [CHR 0x22]"

text \<open>
  \<open>json.Unmarshal\<close> into an integer or a boolean.  White space around the value is
  skipped; a number is an optional minus sign and digits that do not start with a
  needless zero, and must be in the range of the type; a fraction or an exponent, any
  other JSON value and any other text is an error.  The text of the error of
  \<open>encoding/json\<close> is not reproduced: the error here quotes the input.  The instance
  does not decode values of other types; it returns the error for them.
\<close>

definition json_space :: "char \<Rightarrow> bool" where
  "json_space c \<longleftrightarrow> c = CHR 0x20 \<or> c = CHR 0x09 \<or> c = CHR 0x0A \<or> c = CHR 0x0D"

definition json_trim :: "string \<Rightarrow> string" where
  "json_trim s = rev (dropWhile json_space (rev (dropWhile json_space s)))"

definition digit_value :: "char \<Rightarrow> int option" where
  "digit_value c = map_of (zip ''0123456789'' [0, 1, 2, 3, 4, 5, 6, 7, 8, 9]) c"

fun digits_value :: "int \<Rightarrow> string \<Rightarrow> int option" where
  "digits_value acc [] = Some acc"
| "digits_value acc (c # cs) =
     (case digit_value c of None \<Rightarrow> None | Some d \<Rightarrow> digits_value (10 * acc + d) cs)"

definition nat_literal :: "string \<Rightarrow> int option" where
  "nat_literal ds =
     (case ds of
        [] \<Rightarrow> None
      | c # cs \<Rightarrow> if c = CHR ''0'' \<and> cs \<noteq> [] then None else digits_value 0 ds)"

definition int_literal :: "string \<Rightarrow> int option" where
  "int_literal s =
     (case s of
        [] \<Rightarrow> None
      | c # cs \<Rightarrow>
          if c = CHR ''-'' then map_option uminus (nat_literal cs)
          else nat_literal s)"

definition unmarshal_error :: "string \<Rightarrow> jres" where
  "unmarshal_error s = JErr (''json: cannot unmarshal '' @ s)"

definition unmarshal_integer :: "bool \<Rightarrow> int \<Rightarrow> int \<Rightarrow> string \<Rightarrow> jres" where
  "unmarshal_integer signed lo hi s =
     (let t = json_trim s in
      if t = ''null'' then JNull
      else
        (case int_literal t of
           None \<Rightarrow> unmarshal_error s
         | Some n \<Rightarrow>
             if (signed \<or> take 1 t \<noteq> ''-'') \<and> lo \<le> n \<and> n \<le> hi then JVal (VInt n)
             else unmarshal_error s))"

definition unmarshal_bool :: "string \<Rightarrow> jres" where
  "unmarshal_bool s =
     (let t = json_trim s in
      if t = ''null'' then JNull
      else if t = ''true'' then JVal (VBool True)
      else if t = ''false'' then JVal (VBool False)
      else unmarshal_error s)"

fun unmarshal_scalar :: "gtype \<Rightarrow> string \<Rightarrow> jres" where
  "unmarshal_scalar TInt s = unmarshal_integer True (- (2 ^ 63)) (2 ^ 63 - 1) s"
| "unmarshal_scalar TRune s = unmarshal_integer True (- (2 ^ 31)) (2 ^ 31 - 1) s"
| "unmarshal_scalar TByte s = unmarshal_integer False 0 255 s"
| "unmarshal_scalar TBool s = unmarshal_bool s"
| "unmarshal_scalar ty s = unmarshal_error s"

definition test_lib :: golib where
  "test_lib = \<lparr>fmt_q = quote_plain, json_Unmarshal = unmarshal_scalar\<rparr>"

section \<open>Test data\<close>

text \<open>The source bundles, parameters and fields of the tests of the repository, and a few
  more in their style.  \<open>required_param\<close> gives the parameters of a tag with a name and a
  parsing order only.\<close>

definition required_param :: "string \<Rightarrow> ParsingOrder list \<Rightarrow> Params" where
  "required_param name order =
     \<lparr>Name = name, Optional = False, ParsingOrder = order, Default = [], Deprecated = []\<rparr>"

text \<open>The bundle of \<open>TestParsingOrder\<close>.\<close>

definition sc_TestParsingOrder :: ScalerConfig where
  "sc_TestParsingOrder =
     \<lparr>TriggerMetadata =
        map_of [(''stringVal'', ''value1''), (''intVal'', ''1''), (''intValFromEnv'', ''intVal''),
                (''floatVal'', ''1.1''), (''floatValFromEnv'', ''floatVal'')],
      ResolvedEnv = map_of [(''stringVal'', ''value2''), (''intVal'', ''2''), (''floatVal'', ''2.2'')],
      AuthParams = Map.empty\<rparr>"

text \<open>The bundle of \<open>TestBasicTypedConfig\<close>.\<close>

definition sc_TestBasicTypedConfig :: ScalerConfig where
  "sc_TestBasicTypedConfig =
     \<lparr>TriggerMetadata =
        map_of [(''stringVal'', ''value1''), (''intVal'', ''1''), (''boolValFromEnv'', ''boolVal''),
                (''floatValFromEnv'', ''floatVal'')],
      ResolvedEnv = map_of [(''boolVal'', ''true''), (''floatVal'', ''1.1'')],
      AuthParams = map_of [(''auth'', ''authValue'')]\<rparr>"

text \<open>The bundle of \<open>TestDeprecated\<close>, the empty bundle of \<open>TestMissing\<close>, a string
  field and an integer field that hold their zero values.\<close>

definition sc_TestDeprecated :: ScalerConfig where
  "sc_TestDeprecated =
     \<lparr>TriggerMetadata = map_of [(''stringVal'', ''value1'')], ResolvedEnv = Map.empty,
      AuthParams = Map.empty\<rparr>"

definition sc_empty :: ScalerConfig where
  "sc_empty = \<lparr>TriggerMetadata = Map.empty, ResolvedEnv = Map.empty, AuthParams = Map.empty\<rparr>"

definition string_field :: Field where
  "string_field =
     \<lparr>fieldName = ''StringVal'', tag = [], ftype = TString, exported = True, fval = VString []\<rparr>"

definition int_field :: "string \<Rightarrow> string \<Rightarrow> Field" where
  "int_field name tg = \<lparr>fieldName = name, tag = tg, ftype = TInt, exported = True, fval = VInt 0\<rparr>"

text \<open>A bundle whose map value has a clause without \<open>=\<close> after a good clause, and whose
  slice value has a third element that is no integer; the two fields hold nil before the
  call.\<close>

definition sc_partial :: ScalerConfig where
  "sc_partial =
     \<lparr>TriggerMetadata = map_of [(''mapVal'', ''key1=1,bad''), (''sliceVal'', ''1,2,x'')],
      ResolvedEnv = Map.empty, AuthParams = Map.empty\<rparr>"

definition map_field :: Field where
  "map_field =
     \<lparr>fieldName = ''MapVal'', tag = ''name=mapVal, parsingOrder=triggerMetadata'',
      ftype = TMap TString TInt, exported = True, fval = VNil\<rparr>"

definition slice_field :: Field where
  "slice_field =
     \<lparr>fieldName = ''SliceVal'', tag = ''name=sliceVal, parsingOrder=triggerMetadata'',
      ftype = TSlice TInt, exported = True, fval = VNil\<rparr>"

text \<open>The bundle of \<open>TestSlice\<close>.\<close>

definition sc_TestSlice :: ScalerConfig where
  "sc_TestSlice =
     \<lparr>TriggerMetadata = map_of [(''sliceVal'', ''1,2,3'')], ResolvedEnv = Map.empty,
      AuthParams = Map.empty\<rparr>"

text \<open>
  A bundle with \<open>stringVal\<close> and \<open>intVal\<close>, and five fields: a required field that is
  missing from the bundle, a string field, a field whose tag has the unknown key
  \<open>order\<close>, an integer field, and a field without tag; the errors of the first and of
  the third field.  A bundle in which \<open>intVal\<close> is \<open>null\<close>.
\<close>

definition sc_scenario :: ScalerConfig where
  "sc_scenario =
     \<lparr>TriggerMetadata = map_of [(''stringVal'', ''value1''), (''intVal'', ''1'')],
      ResolvedEnv = Map.empty, AuthParams = Map.empty\<rparr>"

definition f_missing :: Field where
  "f_missing =
     \<lparr>fieldName = ''MissingVal'', tag = ''name=missingVal, parsingOrder=triggerMetadata'',
      ftype = TString, exported = True, fval = VString []\<rparr>"

definition f_string :: Field where
  "f_string =
     \<lparr>fieldName = ''StringVal'', tag = ''name=stringVal, parsingOrder=triggerMetadata'',
      ftype = TString, exported = True, fval = VString []\<rparr>"

definition f_unknown :: Field where
  "f_unknown =
     \<lparr>fieldName = ''Other'', tag = ''name=intVal, order=triggerMetadata'',
      ftype = TInt, exported = True, fval = VInt 0\<rparr>"

definition f_int :: Field where
  "f_int =
     \<lparr>fieldName = ''IntVal'', tag = ''name=intVal,    parsingOrder=triggerMetadata'',
      ftype = TInt, exported = True, fval = VInt 0\<rparr>"

definition f_untagged :: Field where
  "f_untagged =
     \<lparr>fieldName = ''Plain'', tag = [], ftype = TBool, exported = True, fval = VBool False\<rparr>"

definition e_missing :: string where
  "e_missing = ''missing required parameter '' @ quote_plain ''missingVal'' @ '' in [triggerMetadata]''"

definition e_unknown :: string where
  "e_unknown = ''unknown tag order: name=intVal, order=triggerMetadata''"

definition sc_null :: ScalerConfig where
  "sc_null =
     \<lparr>TriggerMetadata = map_of [(''stringVal'', ''value1''), (''intVal'', ''null'')],
      ResolvedEnv = Map.empty, AuthParams = Map.empty\<rparr>"

section \<open>Notions used in the statements\<close>

text \<open>What one entry of the parsing order reads (the value under its key in its map, if
  the key is there), and whether the entry resolves: the key is there and its value is
  not the empty string.\<close>

definition entry_value :: "ScalerConfig \<Rightarrow> string \<Rightarrow> ParsingOrder \<Rightarrow> string option" where
  "entry_value sc name po = (case source_of sc name po of (m, key) \<Rightarrow> m key)"

definition resolves :: "ScalerConfig \<Rightarrow> string \<Rightarrow> ParsingOrder \<Rightarrow> bool" where
  "resolves sc name po = (case entry_value sc name po of Some v \<Rightarrow> v \<noteq> [] | None \<Rightarrow> False)"

text \<open>The key of a clause of the tag, trimmed, and the keys that the parser knows.\<close>

definition clause_key :: "string \<Rightarrow> string" where
  "clause_key ts = TrimSpace (Split ts tagKeySeparator ! 0)"

definition known_keys :: "string list" where
  "known_keys = [nameTag, parsingOrderTag, optionalTag, defaultTag, deprecatedTag]"

text \<open>What one clause of a map value gives: the key and the value to insert, or what the
  loop returns at this clause.\<close>

definition map_clause :: "golib \<Rightarrow> gtype \<Rightarrow> gtype \<Rightarrow> string \<Rightarrow> outcome + gval \<times> gval" where
  "map_clause L kt vt s =
     (let s' = TrimSpace s; kv = Split s' elemKeyValSeparator in
      if length kv \<noteq> 2 then
        Inl (Error (''expected format key'' @ [elemKeyValSeparator] @ ''value, got '' @ fmt_q L s'))
      else
        (let key = TrimSpace (kv ! 0); val = TrimSpace (kv ! 1) in
         case setConfigValueHelper L key kt True (zero kt) of
           (k, Error err) \<Rightarrow> Inl (Error (''map key '' @ fmt_q L key @ '': '' @ err))
         | (k, Panic) \<Rightarrow> Inl Panic
         | (k, NoError) \<Rightarrow>
             (case setConfigValueHelper L val vt True (zero vt) of
                (v, Error err) \<Rightarrow>
                  Inl (Error (''map key '' @ fmt_q L key @ '', value '' @ fmt_q L val @ '': '' @ err))
              | (v, Panic) \<Rightarrow> Inl Panic
              | (v, NoError) \<Rightarrow> Inr (k, v))))"

text \<open>Whether the elements of a field of this type are converted one by one, and what
  converting only the first \<open>n\<close> elements of the raw value leaves in the field.\<close>

fun elementwise :: "gtype \<Rightarrow> bool" where
  "elementwise (TMap kt vt) = True"
| "elementwise (TSlice et) = (et \<noteq> TByte \<and> et \<noteq> TRune)"
| "elementwise ty = False"

fun convert_first :: "golib \<Rightarrow> nat \<Rightarrow> string \<Rightarrow> gtype \<Rightarrow> bool \<Rightarrow> gval \<Rightarrow> gval \<times> outcome" where
  "convert_first L n val (TMap kt vt) settable cur =
     map_loop L kt vt (take n (Split val elemSeparator)) []"
| "convert_first L n val (TSlice et) settable cur =
     slice_loop L et settable (take n (Split val elemSeparator)) 0 (zero et) cur"
| "convert_first L n val ty settable cur = (cur, NoError)"

text \<open>Whether \<open>setValue\<close> reaches the conversion (a value was found for a field that is
  not deprecated, or none was found and there is a default), and the raw value that is
  converted then.\<close>

definition reaches_conversion :: "ScalerConfig \<Rightarrow> Params \<Rightarrow> bool" where
  "reaches_conversion sc p =
     (case configParamValue sc p of
        (v, found) \<Rightarrow> if found then \<not> IsDeprecated p else Default p \<noteq> [])"

definition raw_value :: "ScalerConfig \<Rightarrow> Params \<Rightarrow> string" where
  "raw_value sc p = (case configParamValue sc p of (v, found) \<Rightarrow> if found then v else Default p)"

text \<open>The shape of what the first \<open>n\<close> elements leave in a field that held \<open>cur\<close>: a
  map of at most \<open>n\<close> entries; or, for a slice, \<open>cur\<close> itself when \<open>n\<close> is 0, and
  otherwise the elements of \<open>cur\<close> followed by \<open>n\<close> more.\<close>

fun left_shape :: "gtype \<Rightarrow> gval \<Rightarrow> nat \<Rightarrow> gval \<Rightarrow> bool" where
  "left_shape (TMap kt vt) cur n x = (case x of VMap m \<Rightarrow> length m \<le> n | _ \<Rightarrow> False)"
| "left_shape ty cur n x =
     (if n = 0 then x = cur
      else (case x of VSlice xs \<Rightarrow> length xs = length (elems cur) + n \<and> take (length (elems cur)) xs = elems cur
            | _ \<Rightarrow> False))"

text \<open>Whether a call returned an error.\<close>

definition is_Error :: "outcome \<Rightarrow> bool" where
  "is_Error r = (case r of Error err \<Rightarrow> True | _ \<Rightarrow> False)"

text \<open>The errors of the fields of a struct, in the order of the fields: for each field the
  error that the body of the loop returns for it, if it returns one.\<close>

definition field_errors :: "golib \<Rightarrow> ScalerConfig \<Rightarrow> Field list \<Rightarrow> string list" where
  "field_errors L sc flds =
     concat (map (\<lambda>f. case snd (TypedConfig_field L sc f) of Error err \<Rightarrow> [err] | _ \<Rightarrow> []) flds)"

section \<open>Properties of value resolution\<close>

lemma loop_step:
  "configParamValue_loop sc name (po # pos) =
     (if resolves sc name po then (the (entry_value sc name po), True)
      else configParamValue_loop sc name pos)"
  by (simp add: resolves_def entry_value_def split: prod.splits option.splits)

declare configParamValue_loop.simps(2) [simp del]

lemma loop_none:
  "\<forall>po\<in>set pos. \<not> resolves sc name po \<Longrightarrow> configParamValue_loop sc name pos = ([], False)"
  by (induction pos) (simp_all add: loop_step)

lemma loop_first:
  assumes "\<forall>x\<in>set pre. \<not> resolves sc name x"
    and "entry_value sc name po = Some v" and "v \<noteq> []"
  shows "configParamValue_loop sc name (pre @ po # post) = (v, True)"
  using assms by (induction pre) (simp_all add: loop_step resolves_def)

lemma loop_True:
  "configParamValue_loop sc name pos = (v, True) \<Longrightarrow>
     \<exists>po\<in>set pos. entry_value sc name po = Some v \<and> v \<noteq> []"
proof (induction pos)
  case Nil
  then show ?case by simp
next
  case (Cons po pos)
  show ?case
  proof (cases "resolves sc name po")
    case True
    with Cons.prems have "the (entry_value sc name po) = v" by (simp add: loop_step)
    with True show ?thesis by (auto simp: resolves_def split: option.splits)
  next
    case False
    with Cons show ?thesis by (simp add: loop_step)
  qed
qed

lemma loop_some:
  "\<exists>po\<in>set pos. resolves sc name po \<Longrightarrow> \<exists>v. configParamValue_loop sc name pos = (v, True)"
  by (induction pos) (auto simp: loop_step)

lemma loop_append:
  "configParamValue_loop sc name (pre @ pos) =
     (if \<exists>x\<in>set pre. resolves sc name x then configParamValue_loop sc name pre
      else configParamValue_loop sc name pos)"
  by (induction pre) (simp_all add: loop_step)

lemma loop_cong:
  assumes "\<And>po. entry_value sc' name po = entry_value sc name po"
  shows "configParamValue_loop sc' name pos = configParamValue_loop sc name pos"
  by (induction pos) (simp_all add: loop_step resolves_def assms)

lemma loop_update_env_other:
  assumes "k' \<noteq> (case TriggerMetadata sc (name @ ''FromEnv'') of Some k \<Rightarrow> k | None \<Rightarrow> [])"
  shows "configParamValue_loop (sc\<lparr>ResolvedEnv := (ResolvedEnv sc)(k' := x)\<rparr>) name pos
         = configParamValue_loop sc name pos"
proof (rule loop_cong)
  fix po
  show "entry_value (sc\<lparr>ResolvedEnv := (ResolvedEnv sc)(k' := x)\<rparr>) name po
        = entry_value sc name po"
    using assms by (simp add: entry_value_def source_of_def index_or_empty_def)
qed

text \<open>
  Claim C3.  Value resolution goes through the parsing order in the given sequence.  An
  entry resolves only when its key is in its source map and the value there is not the
  empty string.  The first entry that resolves gives the result, whatever entries come
  after it; when no entry resolves, and so for an empty parsing order, nothing is
  resolved; and a resolved value is always the non-empty value of some entry.
\<close>

theorem configParamValue_first_resolving_entry:
  "(ParsingOrder p = [] \<longrightarrow> configParamValue sc p = ([], False))
   \<and> (\<forall>pre po post v.
          ParsingOrder p = pre @ po # post
          \<and> (\<forall>x\<in>set pre. \<not> resolves sc (Name p) x)
          \<and> entry_value sc (Name p) po = Some v \<and> v \<noteq> []
          \<longrightarrow> configParamValue sc p = (v, True))
   \<and> ((\<forall>x\<in>set (ParsingOrder p). \<not> resolves sc (Name p) x)
          \<longrightarrow> configParamValue sc p = ([], False))
   \<and> (\<forall>v. configParamValue sc p = (v, True)
          \<longrightarrow> (\<exists>po\<in>set (ParsingOrder p). entry_value sc (Name p) po = Some v \<and> v \<noteq> []))"
proof (intro conjI allI impI)
  assume "ParsingOrder p = []"
  then show "configParamValue sc p = ([], False)" by (simp add: configParamValue_def)
next
  fix pre po post v
  assume "ParsingOrder p = pre @ po # post
          \<and> (\<forall>x\<in>set pre. \<not> resolves sc (Name p) x)
          \<and> entry_value sc (Name p) po = Some v \<and> v \<noteq> []"
  then show "configParamValue sc p = (v, True)"
    by (simp add: configParamValue_def loop_first)
next
  assume "\<forall>x\<in>set (ParsingOrder p). \<not> resolves sc (Name p) x"
  then show "configParamValue sc p = ([], False)"
    by (simp add: configParamValue_def loop_none)
next
  fix v
  assume "configParamValue sc p = (v, True)"
  then show "\<exists>po\<in>set (ParsingOrder p). entry_value sc (Name p) po = Some v \<and> v \<noteq> []"
    unfolding configParamValue_def by (rule loop_True)
qed

text \<open>In \<open>TestParsingOrder\<close> the field \<open>stringVal\<close> has the order resolvedEnv,
  triggerMetadata: the first entry does not resolve (the bundle has no
  \<open>stringValFromEnv\<close>), the second does.\<close>

theorem configParamValue_first_resolving_entry_witness:
  "\<not> resolves sc_TestParsingOrder ''stringVal'' ResolvedEnvPO
   \<and> entry_value sc_TestParsingOrder ''stringVal'' TriggerMetadataPO = Some ''value1''
   \<and> configParamValue sc_TestParsingOrder
        (required_param ''stringVal'' [ResolvedEnvPO, TriggerMetadataPO]) = (''value1'', True)"
proof -
  let ?q = "required_param ''stringVal'' [ResolvedEnvPO, TriggerMetadataPO]"
  have a: "\<not> resolves sc_TestParsingOrder ''stringVal'' ResolvedEnvPO"
    by (simp add: resolves_def entry_value_def source_of_def sc_TestParsingOrder_def
          index_or_empty_def TriggerMetadataPO_def ResolvedEnvPO_def AuthParamsPO_def)
  have b: "entry_value sc_TestParsingOrder ''stringVal'' TriggerMetadataPO = Some ''value1''"
    by (simp add: entry_value_def source_of_def sc_TestParsingOrder_def TriggerMetadataPO_def)
  have "ParsingOrder ?q = [ResolvedEnvPO] @ TriggerMetadataPO # []
        \<and> (\<forall>x\<in>set [ResolvedEnvPO]. \<not> resolves sc_TestParsingOrder (Name ?q) x)
        \<and> entry_value sc_TestParsingOrder (Name ?q) TriggerMetadataPO = Some ''value1''
        \<and> ''value1'' \<noteq> []"
    using a b by (simp add: required_param_def)
  with configParamValue_first_resolving_entry [of ?q sc_TestParsingOrder]
  have "configParamValue sc_TestParsingOrder ?q = (''value1'', True)" by blast
  with a b show ?thesis by simp
qed

text \<open>
  Claim C4.  An entry \<open>resolvedEnv\<close>, wherever it stands in the parsing order, is
  read through an indirection.  When the trigger metadata has a value \<open>k\<close> under
  \<open><Name>FromEnv\<close>, the entry reads the resolved environment under \<open>k\<close>, and a
  non-empty value there is the result; when the trigger metadata has no such key, the
  entry reads the resolved environment under the empty string.  The name itself is not
  used as a key there: what the resolved environment holds under any key other than the
  one the indirection yields has no effect on the result.
\<close>

theorem resolvedEnv_indirect_key:
  "(\<forall>k. TriggerMetadata sc (Name p @ ''FromEnv'') = Some k \<longrightarrow>
        source_of sc (Name p) ResolvedEnvPO = (ResolvedEnv sc, k))
   \<and> (TriggerMetadata sc (Name p @ ''FromEnv'') = None \<longrightarrow>
        source_of sc (Name p) ResolvedEnvPO = (ResolvedEnv sc, []))
   \<and> (\<forall>k v. TriggerMetadata sc (Name p @ ''FromEnv'') = Some k
            \<and> ResolvedEnv sc k = Some v \<and> v \<noteq> [] \<longrightarrow>
        configParamValue sc (p\<lparr>ParsingOrder := ResolvedEnvPO # rest\<rparr>) = (v, True))
   \<and> configParamValue sc (p\<lparr>ParsingOrder := ResolvedEnvPO # rest\<rparr>) =
     (case ResolvedEnv sc (case TriggerMetadata sc (Name p @ ''FromEnv'') of
                             Some k \<Rightarrow> k | None \<Rightarrow> []) of
        Some v \<Rightarrow> if v \<noteq> [] then (v, True) else configParamValue sc (p\<lparr>ParsingOrder := rest\<rparr>)
      | None \<Rightarrow> configParamValue sc (p\<lparr>ParsingOrder := rest\<rparr>))
   \<and> (\<forall>k' x. k' \<noteq> (case TriggerMetadata sc (Name p @ ''FromEnv'') of
                        Some k \<Rightarrow> k | None \<Rightarrow> []) \<longrightarrow>
        configParamValue (sc\<lparr>ResolvedEnv := (ResolvedEnv sc)(k' := x)\<rparr>) p
        = configParamValue sc p)"
proof (intro conjI allI impI)
  fix k assume "TriggerMetadata sc (Name p @ ''FromEnv'') = Some k"
  then show "source_of sc (Name p) ResolvedEnvPO = (ResolvedEnv sc, k)"
    by (simp add: source_of_def index_or_empty_def
          TriggerMetadataPO_def ResolvedEnvPO_def AuthParamsPO_def)
next
  assume "TriggerMetadata sc (Name p @ ''FromEnv'') = None"
  then show "source_of sc (Name p) ResolvedEnvPO = (ResolvedEnv sc, [])"
    by (simp add: source_of_def index_or_empty_def
          TriggerMetadataPO_def ResolvedEnvPO_def AuthParamsPO_def)
next
  fix k v
  assume "TriggerMetadata sc (Name p @ ''FromEnv'') = Some k
          \<and> ResolvedEnv sc k = Some v \<and> v \<noteq> []"
  then show "configParamValue sc (p\<lparr>ParsingOrder := ResolvedEnvPO # rest\<rparr>) = (v, True)"
    by (simp add: configParamValue_def configParamValue_loop.simps(2) source_of_def
          index_or_empty_def TriggerMetadataPO_def ResolvedEnvPO_def AuthParamsPO_def)
next
  show "configParamValue sc (p\<lparr>ParsingOrder := ResolvedEnvPO # rest\<rparr>) =
     (case ResolvedEnv sc (case TriggerMetadata sc (Name p @ ''FromEnv'') of
                             Some k \<Rightarrow> k | None \<Rightarrow> []) of
        Some v \<Rightarrow> if v \<noteq> [] then (v, True) else configParamValue sc (p\<lparr>ParsingOrder := rest\<rparr>)
      | None \<Rightarrow> configParamValue sc (p\<lparr>ParsingOrder := rest\<rparr>))"
    by (simp add: configParamValue_def configParamValue_loop.simps(2) source_of_def
          index_or_empty_def TriggerMetadataPO_def ResolvedEnvPO_def AuthParamsPO_def
          split: option.splits)
next
  fix k' x
  assume "k' \<noteq> (case TriggerMetadata sc (Name p @ ''FromEnv'') of Some k \<Rightarrow> k | None \<Rightarrow> [])"
  then show "configParamValue (sc\<lparr>ResolvedEnv := (ResolvedEnv sc)(k' := x)\<rparr>) p
        = configParamValue sc p"
    unfolding configParamValue_def by (rule loop_update_env_other)
qed

text \<open>
  In \<open>TestBasicTypedConfig\<close> the trigger metadata maps \<open>boolValFromEnv\<close> to \<open>boolVal\<close>,
  and the field resolves to what the resolved environment holds under \<open>boolVal\<close>; in
  \<open>TestParsingOrder\<close> the field \<open>floatVal\<close> resolves through \<open>floatValFromEnv\<close>.  The
  bundle of \<open>TestParsingOrder\<close> has no \<open>stringValFromEnv\<close>, so the entry
  \<open>stringVal \<mapsto> value2\<close> of the resolved environment is never read.
\<close>

theorem resolvedEnv_indirect_key_witness:
  "TriggerMetadata sc_TestBasicTypedConfig (''boolVal'' @ ''FromEnv'') = Some ''boolVal''
   \<and> ResolvedEnv sc_TestBasicTypedConfig ''boolVal'' = Some ''true''
   \<and> source_of sc_TestBasicTypedConfig ''boolVal'' ResolvedEnvPO
     = (ResolvedEnv sc_TestBasicTypedConfig, ''boolVal'')
   \<and> configParamValue sc_TestBasicTypedConfig (required_param ''boolVal'' [ResolvedEnvPO])
     = (''true'', True)
   \<and> TriggerMetadata sc_TestParsingOrder (''floatVal'' @ ''FromEnv'') = Some ''floatVal''
   \<and> ResolvedEnv sc_TestParsingOrder ''floatVal'' = Some ''2.2''
   \<and> configParamValue sc_TestParsingOrder
        (required_param ''floatVal'' [ResolvedEnvPO, TriggerMetadataPO]) = (''2.2'', True)
   \<and> TriggerMetadata sc_TestParsingOrder (''stringVal'' @ ''FromEnv'') = None
   \<and> ResolvedEnv sc_TestParsingOrder ''stringVal'' = Some ''value2''
   \<and> source_of sc_TestParsingOrder ''stringVal'' ResolvedEnvPO
     = (ResolvedEnv sc_TestParsingOrder, [])
   \<and> configParamValue sc_TestParsingOrder (required_param ''stringVal'' [ResolvedEnvPO]) = ([], False)
   \<and> configParamValue
        (sc_TestParsingOrder\<lparr>ResolvedEnv := (ResolvedEnv sc_TestParsingOrder)(''stringVal'' := None)\<rparr>)
        (required_param ''stringVal'' [ResolvedEnvPO]) = ([], False)"
proof -
  let ?b = "required_param ''boolVal'' []"
  let ?f = "required_param ''floatVal'' []"
  let ?s = "required_param ''stringVal'' [ResolvedEnvPO]"
  have b1: "TriggerMetadata sc_TestBasicTypedConfig (''boolVal'' @ ''FromEnv'') = Some ''boolVal''"
    and b2: "ResolvedEnv sc_TestBasicTypedConfig ''boolVal'' = Some ''true''"
    by (simp_all add: sc_TestBasicTypedConfig_def)
  have f1: "TriggerMetadata sc_TestParsingOrder (''floatVal'' @ ''FromEnv'') = Some ''floatVal''"
    and f2: "ResolvedEnv sc_TestParsingOrder ''floatVal'' = Some ''2.2''"
    and s1: "TriggerMetadata sc_TestParsingOrder (''stringVal'' @ ''FromEnv'') = None"
    and s2: "ResolvedEnv sc_TestParsingOrder ''stringVal'' = Some ''value2''"
    by (simp_all add: sc_TestParsingOrder_def)
  have nb: "Name ?b = ''boolVal''" and nf: "Name ?f = ''floatVal''" and ns: "Name ?s = ''stringVal''"
    by (simp_all add: required_param_def)
  note B = resolvedEnv_indirect_key [where sc = sc_TestBasicTypedConfig and p = "?b" and rest = "[]"]
  note F = resolvedEnv_indirect_key
             [where sc = sc_TestParsingOrder and p = "?f" and rest = "[TriggerMetadataPO]"]
  note S = resolvedEnv_indirect_key [where sc = sc_TestParsingOrder and p = "?s" and rest = "[]"]
  from B b1 b2 nb have B1: "source_of sc_TestBasicTypedConfig ''boolVal'' ResolvedEnvPO
                        = (ResolvedEnv sc_TestBasicTypedConfig, ''boolVal'')"
    by simp
  from B b1 b2 nb have "configParamValue sc_TestBasicTypedConfig (?b\<lparr>ParsingOrder := [ResolvedEnvPO]\<rparr>)
                        = (''true'', True)"
    by simp
  then have B2: "configParamValue sc_TestBasicTypedConfig (required_param ''boolVal'' [ResolvedEnvPO])
                 = (''true'', True)"
    by (simp add: required_param_def)
  from F f1 f2 nf have "configParamValue sc_TestParsingOrder
                          (?f\<lparr>ParsingOrder := [ResolvedEnvPO, TriggerMetadataPO]\<rparr>) = (''2.2'', True)"
    by simp
  then have F2: "configParamValue sc_TestParsingOrder
                   (required_param ''floatVal'' [ResolvedEnvPO, TriggerMetadataPO]) = (''2.2'', True)"
    by (simp add: required_param_def)
  from S s1 ns have S1: "source_of sc_TestParsingOrder ''stringVal'' ResolvedEnvPO
                         = (ResolvedEnv sc_TestParsingOrder, [])"
    by simp
  have S2: "configParamValue sc_TestParsingOrder ?s = ([], False)"
    by (simp add: configParamValue_def required_param_def loop_step resolves_def entry_value_def
          source_of_def sc_TestParsingOrder_def index_or_empty_def
          TriggerMetadataPO_def ResolvedEnvPO_def AuthParamsPO_def)
  from S s1 ns have "configParamValue
          (sc_TestParsingOrder\<lparr>ResolvedEnv := (ResolvedEnv sc_TestParsingOrder)(''stringVal'' := None)\<rparr>) ?s
        = configParamValue sc_TestParsingOrder ?s"
    by simp
  with S2 have S3: "configParamValue
          (sc_TestParsingOrder\<lparr>ResolvedEnv := (ResolvedEnv sc_TestParsingOrder)(''stringVal'' := None)\<rparr>) ?s
        = ([], False)" by simp
  from b1 b2 B1 B2 f1 f2 F2 s1 s2 S1 S2 S3 show ?thesis by blast
qed

text \<open>
  Claim C10.  An entry of the parsing order that is none of \<open>triggerMetadata\<close>,
  \<open>resolvedEnv\<close> and \<open>authParams\<close> is neither skipped nor an error: it reads the name in
  the trigger metadata, and value resolution gives what it gives with \<open>triggerMetadata\<close>
  in the place of that entry.
\<close>

theorem unknown_source_reads_TriggerMetadata:
  assumes "po \<noteq> TriggerMetadataPO" and "po \<noteq> ResolvedEnvPO" and "po \<noteq> AuthParamsPO"
  shows "source_of sc (Name p) po = (TriggerMetadata sc, Name p)
    \<and> configParamValue sc (p\<lparr>ParsingOrder := pre @ po # post\<rparr>)
      = configParamValue sc (p\<lparr>ParsingOrder := pre @ TriggerMetadataPO # post\<rparr>)"
proof -
  have "source_of sc (Name p) po = source_of sc (Name p) TriggerMetadataPO"
    using assms by (simp add: source_of_def)
  then have "entry_value sc (Name p) po = entry_value sc (Name p) TriggerMetadataPO"
    by (simp add: entry_value_def)
  then show ?thesis
    using assms by (simp add: configParamValue_def loop_append loop_step resolves_def source_of_def)
qed

text \<open>The entry \<open>metadata\<close> is no source; on the bundle of \<open>TestParsingOrder\<close> it reads
  \<open>intVal\<close> from the trigger metadata, although the resolved environment comes next.\<close>

theorem unknown_source_reads_TriggerMetadata_witness:
  "''metadata'' \<noteq> TriggerMetadataPO \<and> ''metadata'' \<noteq> ResolvedEnvPO \<and> ''metadata'' \<noteq> AuthParamsPO
   \<and> configParamValue sc_TestParsingOrder (required_param ''intVal'' [''metadata'', ResolvedEnvPO])
     = (''1'', True)"
proof -
  let ?q = "required_param ''intVal'' []"
  have a: "''metadata'' \<noteq> TriggerMetadataPO" "''metadata'' \<noteq> ResolvedEnvPO"
    "''metadata'' \<noteq> AuthParamsPO"
    by (simp_all add: TriggerMetadataPO_def ResolvedEnvPO_def AuthParamsPO_def)
  have "configParamValue sc_TestParsingOrder (?q\<lparr>ParsingOrder := [] @ TriggerMetadataPO # [ResolvedEnvPO]\<rparr>)
        = (''1'', True)"
    by (simp add: configParamValue_def required_param_def loop_step resolves_def entry_value_def
          source_of_def sc_TestParsingOrder_def)
  with unknown_source_reads_TriggerMetadata
      [OF a, where sc = sc_TestParsingOrder and p = "?q" and pre = "[]" and post = "[ResolvedEnvPO]"]
  have "configParamValue sc_TestParsingOrder (?q\<lparr>ParsingOrder := [] @ ''metadata'' # [ResolvedEnvPO]\<rparr>)
        = (''1'', True)"
    by simp
  with a show ?thesis by (simp add: required_param_def)
qed

section \<open>Properties of the policy of setValue\<close>

lemma configParamValue_none:
  "\<forall>po\<in>set (ParsingOrder p). \<not> resolves sc (Name p) po \<Longrightarrow> configParamValue sc p = ([], False)"
  by (simp add: configParamValue_def loop_none)

lemma configParamValue_some:
  "\<exists>po\<in>set (ParsingOrder p). resolves sc (Name p) po \<Longrightarrow> \<exists>v. configParamValue sc p = (v, True)"
  unfolding configParamValue_def by (rule loop_some)

lemma setValue_convert:
  assumes "configParamValue sc p = (v, True) \<and> \<not> IsDeprecated p \<and> val = v
           \<or> configParamValue sc p = (v, False) \<and> Default p \<noteq> [] \<and> val = Default p"
  shows "setValue L sc field p =
           (case setConfigValueHelper L val (ftype field) (exported field) (fval field) of
              (x, Error err) \<Rightarrow>
                (field\<lparr>fval := x\<rparr>,
                 Error (''unable to set param '' @ fmt_q L (Name p) @ '' value '' @ fmt_q L val
                        @ '': '' @ err))
            | (x, Panic) \<Rightarrow> (field\<lparr>fval := x\<rparr>, Panic)
            | (x, NoError) \<Rightarrow> (field\<lparr>fval := x\<rparr>, NoError))"
  using assms
proof (elim disjE conjE)
  assume "configParamValue sc p = (v, True)" "\<not> IsDeprecated p" "val = v"
  then show ?thesis unfolding setValue_def by (simp split: prod.splits outcome.splits)
next
  assume "configParamValue sc p = (v, False)" "Default p \<noteq> []" "val = Default p"
  then show ?thesis unfolding setValue_def by (simp split: prod.splits outcome.splits)
qed

text \<open>
  Claim C5.  When the field is marked deprecated and some entry of its parsing order
  resolves, materialization fails with the message \<open>parameter "<name>" is deprecated\<close>
  (the name as \<open>%q\<close> prints it), followed by \<open>: <marker>\<close> exactly when the marker is
  not the bare word \<open>deprecated\<close>; the field is not touched.
\<close>

theorem deprecated_parameter_supplied:
  assumes "IsDeprecated p" and "\<exists>po\<in>set (ParsingOrder p). resolves sc (Name p) po"
  shows "setValue L sc field p =
           (field, Error (''parameter '' @ fmt_q L (Name p) @ '' is deprecated''
                          @ (if Deprecated p = ''deprecated'' then [] else '': '' @ Deprecated p)))"
proof -
  from assms(2) obtain v where "configParamValue sc p = (v, True)"
    using configParamValue_some by blast
  with assms(1) show ?thesis
    by (simp add: setValue_def DeprecatedMessage_def deprecatedTag_def)
qed

text \<open>\<open>TestDeprecated\<close>, with the bare marker and with a message.\<close>

theorem deprecated_parameter_supplied_witness:
  "IsDeprecated (required_param ''stringVal'' [TriggerMetadataPO]\<lparr>Deprecated := ''deprecated''\<rparr>)
   \<and> resolves sc_TestDeprecated ''stringVal'' TriggerMetadataPO
   \<and> setValue test_lib sc_TestDeprecated string_field
        (required_param ''stringVal'' [TriggerMetadataPO]\<lparr>Deprecated := ''deprecated''\<rparr>)
      = (string_field, Error (''parameter '' @ quote_plain ''stringVal'' @ '' is deprecated''))
   \<and> setValue test_lib sc_TestDeprecated string_field
        (required_param ''stringVal'' [TriggerMetadataPO]\<lparr>Deprecated := ''use value''\<rparr>)
      = (string_field, Error (''parameter '' @ quote_plain ''stringVal'' @ '' is deprecated: use value''))"
proof -
  let ?q = "\<lambda>d. required_param ''stringVal'' [TriggerMetadataPO]\<lparr>Deprecated := d\<rparr>"
  have a: "IsDeprecated (?q d)" if "d \<noteq> []" for d
    using that by (simp add: IsDeprecated_def)
  have b: "resolves sc_TestDeprecated ''stringVal'' TriggerMetadataPO"
    by (simp add: resolves_def entry_value_def source_of_def sc_TestDeprecated_def)
  then have c: "\<exists>po\<in>set (ParsingOrder (?q d)). resolves sc_TestDeprecated (Name (?q d)) po" for d
    by (simp add: required_param_def)
  have "''deprecated'' \<noteq> ([] :: string)" "''use value'' \<noteq> ([] :: string)" by simp_all
  then show ?thesis
    using b a [of "''deprecated''"]
      deprecated_parameter_supplied [OF a c, of "''deprecated''" test_lib string_field]
      deprecated_parameter_supplied [OF a c, of "''use value''" test_lib string_field]
    by (simp add: required_param_def test_lib_def)
qed

text \<open>
  Claim C6.  When the field is neither optional nor deprecated, has no default, and no
  entry of its parsing order resolves, materialization fails with the message
  \<open>missing required parameter "<name>" in <parsing order>\<close>, the whole parsing order
  printed between brackets; the field is not touched.
\<close>

theorem missing_required_parameter:
  assumes "\<not> Optional p" and "\<not> IsDeprecated p" and "Default p = []"
    and "\<forall>po\<in>set (ParsingOrder p). \<not> resolves sc (Name p) po"
  shows "setValue L sc field p =
           (field, Error (''missing required parameter '' @ fmt_q L (Name p) @ '' in ''
                          @ show_order (ParsingOrder p)))"
  using assms configParamValue_none [OF assms(4)] by (simp add: setValue_def)

text \<open>\<open>TestMissing\<close>.\<close>

theorem missing_required_parameter_witness:
  "\<not> Optional (required_param ''stringVal'' [TriggerMetadataPO])
   \<and> \<not> IsDeprecated (required_param ''stringVal'' [TriggerMetadataPO])
   \<and> Default (required_param ''stringVal'' [TriggerMetadataPO]) = []
   \<and> \<not> resolves sc_empty ''stringVal'' TriggerMetadataPO
   \<and> setValue test_lib sc_empty string_field (required_param ''stringVal'' [TriggerMetadataPO])
      = (string_field,
         Error (''missing required parameter '' @ quote_plain ''stringVal'' @ '' in [triggerMetadata]''))"
proof -
  let ?q = "required_param ''stringVal'' [TriggerMetadataPO]"
  have a: "\<not> Optional ?q" "\<not> IsDeprecated ?q" "Default ?q = []"
    by (simp_all add: required_param_def IsDeprecated_def)
  have b: "\<not> resolves sc_empty ''stringVal'' TriggerMetadataPO"
    by (simp add: resolves_def entry_value_def source_of_def sc_empty_def)
  then have c: "\<forall>po\<in>set (ParsingOrder ?q). \<not> resolves sc_empty (Name ?q) po"
    by (simp add: required_param_def)
  show ?thesis
    using a b missing_required_parameter [OF a c, of test_lib string_field]
    by (simp add: required_param_def test_lib_def show_order_def TriggerMetadataPO_def)
qed

text \<open>
  Claim C2, as the code has it.  When the field is marked deprecated and no entry of its
  parsing order resolves, the default decides.  Without a default, materialization
  succeeds and the field is as it was (so a field at its zero value stays there),
  whatever the optional flag says.  With a non-empty default, the default is converted
  into the field as a resolved value would be.
\<close>

theorem deprecated_parameter_absent:
  assumes "IsDeprecated p" and "\<forall>po\<in>set (ParsingOrder p). \<not> resolves sc (Name p) po"
  shows "(Default p = [] \<longrightarrow> setValue L sc field p = (field, NoError))
       \<and> (Default p \<noteq> [] \<longrightarrow>
            fst (setValue L sc field p)
            = field\<lparr>fval := fst (setConfigValueHelper L (Default p) (ftype field) (exported field)
                                   (fval field))\<rparr>)"
proof (intro conjI impI)
  assume "Default p = []"
  with assms configParamValue_none [OF assms(2)] show "setValue L sc field p = (field, NoError)"
    by (simp add: setValue_def)
next
  assume "Default p \<noteq> []"
  with configParamValue_none [OF assms(2)]
  have "configParamValue sc p = ([], False) \<and> Default p \<noteq> [] \<and> Default p = Default p" by simp
  then show "fst (setValue L sc field p)
            = field\<lparr>fval := fst (setConfigValueHelper L (Default p) (ftype field) (exported field)
                                   (fval field))\<rparr>"
    by (simp add: setValue_convert [where val = "Default p" and v = "[]"]
          split: prod.splits outcome.splits)
qed

text \<open>The second half of \<open>TestDeprecated\<close>: nothing is supplied, the call succeeds and
  the field keeps its zero value.  With the default \<open>d\<close> the field is set to it.\<close>

theorem deprecated_parameter_absent_witness:
  "IsDeprecated (required_param ''stringVal'' [TriggerMetadataPO]\<lparr>Deprecated := ''deprecated''\<rparr>)
   \<and> \<not> resolves sc_empty ''stringVal'' TriggerMetadataPO
   \<and> setValue test_lib sc_empty string_field
        (required_param ''stringVal'' [TriggerMetadataPO]\<lparr>Deprecated := ''deprecated''\<rparr>)
      = (string_field, NoError)
   \<and> fval string_field = zero (ftype string_field)
   \<and> fst (setValue test_lib sc_empty string_field
             (required_param ''stringVal'' [TriggerMetadataPO]
                \<lparr>Deprecated := ''deprecated'', Default := ''d''\<rparr>))
      = string_field\<lparr>fval := VString ''d''\<rparr>"
proof -
  let ?q = "\<lambda>d. required_param ''stringVal'' [TriggerMetadataPO]
                   \<lparr>Deprecated := ''deprecated'', Default := d\<rparr>"
  have a: "IsDeprecated (?q d)" for d by (simp add: IsDeprecated_def)
  have b: "\<not> resolves sc_empty ''stringVal'' TriggerMetadataPO"
    by (simp add: resolves_def entry_value_def source_of_def sc_empty_def)
  then have c: "\<forall>po\<in>set (ParsingOrder (?q d)). \<not> resolves sc_empty (Name (?q d)) po" for d
    by (simp add: required_param_def)
  have d: "Default (?q []) = []" "Default (?q ''d'') \<noteq> []" "Default (?q ''d'') = ''d''"
    by (simp_all add: required_param_def)
  have e: "?q [] = required_param ''stringVal'' [TriggerMetadataPO]\<lparr>Deprecated := ''deprecated''\<rparr>"
    by (simp add: required_param_def)
  from d deprecated_parameter_absent [OF a c, of "[]" test_lib string_field]
  have "setValue test_lib sc_empty string_field (?q []) = (string_field, NoError)" by blast
  moreover from d deprecated_parameter_absent [OF a c, of "''d''" test_lib string_field]
  have "fst (setValue test_lib sc_empty string_field (?q ''d''))
        = string_field\<lparr>fval := VString ''d''\<rparr>"
    by (simp add: string_field_def)
  ultimately show ?thesis using a [of "[]"] b e by (simp add: string_field_def)
qed

text \<open>A deprecated field with the default \<open>d\<close> and no value supplied: the call
  succeeds and the field holds \<open>d\<close>, not its zero value.\<close>

theorem deprecated_default_counterexample:
  "IsDeprecated (required_param ''stringVal'' [TriggerMetadataPO]
                   \<lparr>Deprecated := ''deprecated'', Default := ''d''\<rparr>)
   \<and> \<not> resolves sc_empty ''stringVal'' TriggerMetadataPO
   \<and> fval string_field = zero (ftype string_field)
   \<and> setValue test_lib sc_empty string_field
        (required_param ''stringVal'' [TriggerMetadataPO]\<lparr>Deprecated := ''deprecated'', Default := ''d''\<rparr>)
      = (string_field\<lparr>fval := VString ''d''\<rparr>, NoError)
   \<and> VString ''d'' \<noteq> zero (ftype string_field)"
  by (simp add: IsDeprecated_def required_param_def resolves_def entry_value_def source_of_def
        sc_empty_def string_field_def setValue_def configParamValue_def loop_step)

section \<open>Properties of the tag parser\<close>

lemma clause_unknown:
  "clause_key ts \<notin> set known_keys \<Longrightarrow> paramsFromTag_clause ts params = Inl (clause_key ts)"
  by (simp add: paramsFromTag_clause_def clause_key_def known_keys_def Let_def)

lemma clause_known:
  "clause_key ts \<in> set known_keys \<Longrightarrow> \<exists>params'. paramsFromTag_clause ts params = Inr params'"
  by (auto simp: paramsFromTag_clause_def clause_key_def known_keys_def Let_def)

lemma paramsFromTag_loop_unknown:
  "find (\<lambda>ts. clause_key ts \<notin> set known_keys) tagSplit = Some ts \<Longrightarrow>
   snd (paramsFromTag_loop tg tagSplit params) = Some (''unknown tag '' @ clause_key ts @ '': '' @ tg)"
proof (induction tagSplit arbitrary: params)
  case Nil
  then show ?case by simp
next
  case (Cons t tagSplit)
  show ?case
  proof (cases "clause_key t \<in> set known_keys")
    case True
    then obtain params' where "paramsFromTag_clause t params = Inr params'"
      using clause_known by blast
    with True Cons show ?thesis by simp
  next
    case False
    with Cons.prems have "t = ts" by simp
    with False show ?thesis by (simp add: clause_unknown)
  qed
qed

text \<open>
  Claim C8.  When some clause of the tag has a trimmed key that is none of \<open>name\<close>,
  \<open>parsingOrder\<close>, \<open>optional\<close>, \<open>default\<close> and \<open>deprecated\<close>, parsing the tag fails; the
  error is \<open>unknown tag <key>: <tag>\<close> with the key of the first such clause and the
  whole text of the tag.  In \<open>TypedConfig\<close> the field with this tag keeps its value, and
  the error is the one collected for it (a field whose tag is empty is skipped before
  the tag is parsed).
\<close>

theorem unknown_tag_key_fails:
  assumes "\<exists>ts\<in>set (Split tg tagSeparator). clause_key ts \<notin> set known_keys"
  shows "\<exists>ts. find (\<lambda>ts. clause_key ts \<notin> set known_keys) (Split tg tagSeparator) = Some ts
           \<and> clause_key ts \<notin> set known_keys
           \<and> snd (paramsFromTag tg fname)
              = Some (''unknown tag '' @ clause_key ts @ '': '' @ tg)
           \<and> (\<forall>field. tag field = tg \<longrightarrow>
                 TypedConfig_field L sc field
                 = (field, if tg = [] then NoError
                           else Error (''unknown tag '' @ clause_key ts @ '': '' @ tg)))"
proof -
  from assms obtain ts
    where f: "find (\<lambda>ts. clause_key ts \<notin> set known_keys) (Split tg tagSeparator) = Some ts"
    by (cases "find (\<lambda>ts. clause_key ts \<notin> set known_keys) (Split tg tagSeparator)")
       (auto simp: find_None_iff)
  then have k: "clause_key ts \<notin> set known_keys"
    by (auto simp: find_Some_iff)
  have e: "snd (paramsFromTag tg n) = Some (''unknown tag '' @ clause_key ts @ '': '' @ tg)" for n
    unfolding paramsFromTag_def by (rule paramsFromTag_loop_unknown [OF f])
  have "TypedConfig_field L sc field
        = (field, if tg = [] then NoError
                  else Error (''unknown tag '' @ clause_key ts @ '': '' @ tg))"
    if "tag field = tg" for field
  proof (cases "tg = []")
    case True
    with that show ?thesis by (simp add: TypedConfig_field_def)
  next
    case False
    obtain ps where "paramsFromTag tg (fieldName field)
                     = (ps, Some (''unknown tag '' @ clause_key ts @ '': '' @ tg))"
      using e [of "fieldName field"] by (cases "paramsFromTag tg (fieldName field)") simp
    with False that show ?thesis by (simp add: TypedConfig_field_def)
  qed
  with f k e show ?thesis by blast
qed

text \<open>A tag with the clause \<open>foo=1\<close>.\<close>

theorem unknown_tag_key_fails_witness:
  "''foo'' \<notin> set known_keys
   \<and> snd (paramsFromTag ''name=intVal, foo=1'' ''IntVal'')
      = Some ''unknown tag foo: name=intVal, foo=1''
   \<and> TypedConfig_field test_lib sc_TestParsingOrder (int_field ''IntVal'' ''name=intVal, foo=1'')
      = (int_field ''IntVal'' ''name=intVal, foo=1'', Error ''unknown tag foo: name=intVal, foo=1'')"
proof -
  let ?tg = "''name=intVal, foo=1''"
  have s: "Split ?tg tagSeparator = [''name=intVal'', '' foo=1'']" by code_simp
  have k1: "clause_key ''name=intVal'' = ''name''" by code_simp
  have k2: "clause_key '' foo=1'' = ''foo''" by code_simp
  have n: "''foo'' \<notin> set known_keys"
    by (simp add: known_keys_def nameTag_def parsingOrderTag_def optionalTag_def defaultTag_def
          deprecatedTag_def)
  have "''name'' \<in> set known_keys" by (simp add: known_keys_def nameTag_def)
  with n have f: "find (\<lambda>ts. clause_key ts \<notin> set known_keys) (Split ?tg tagSeparator) = Some '' foo=1''"
    by (simp add: s k1 k2)
  have "\<exists>ts\<in>set (Split ?tg tagSeparator). clause_key ts \<notin> set known_keys"
    using n by (simp add: s k2)
  from unknown_tag_key_fails
         [OF this, where fname = "''IntVal''" and L = test_lib and sc = sc_TestParsingOrder]
  have "snd (paramsFromTag ?tg ''IntVal'') = Some (''unknown tag '' @ ''foo'' @ '': '' @ ?tg)
        \<and> (\<forall>field. tag field = ?tg \<longrightarrow>
              TypedConfig_field test_lib sc_TestParsingOrder field
              = (field, Error (''unknown tag '' @ ''foo'' @ '': '' @ ?tg)))"
    by (auto simp: f k2)
  moreover have "tag (int_field ''IntVal'' ?tg) = ?tg" by (simp add: int_field_def)
  ultimately show ?thesis using n by simp
qed

section \<open>Properties of the conversion\<close>

subsection \<open>What an error leaves in the field\<close>

lemma slice_loop_error_at:
  "slice_loop L et w split i h cur = (x, Error e) \<Longrightarrow>
   \<exists>n<length split. slice_loop L et w (take n split) i h cur = (x, NoError)
                    \<and> slice_loop L et w (take (Suc n) split) i h cur = (x, Error e)"
proof (induction split arbitrary: i h cur)
  case Nil
  then show ?case by simp
next
  case (Cons s split)
  obtain h' r where hr: "setConfigValueHelper L (TrimSpace s) et True h = (h', r)"
    by (cases "setConfigValueHelper L (TrimSpace s) et True h")
  show ?case
  proof (cases r)
    case NoError
    with hr Cons.prems have w: "w"
      and rec: "slice_loop L et w split (Suc i) h' (Append cur h') = (x, Error e)"
      by (simp_all split: if_splits)
    from Cons.IH [OF rec] obtain n where "n < length split"
      and "slice_loop L et w (take n split) (Suc i) h' (Append cur h') = (x, NoError)"
      and "slice_loop L et w (take (Suc n) split) (Suc i) h' (Append cur h') = (x, Error e)"
      by blast
    with hr NoError w have "Suc n < length (s # split)
      \<and> slice_loop L et w (take (Suc n) (s # split)) i h cur = (x, NoError)
      \<and> slice_loop L et w (take (Suc (Suc n)) (s # split)) i h cur = (x, Error e)"
      by simp
    then show ?thesis by blast
  next
    case (Error err)
    with hr Cons.prems have "x = cur" and "e = ''slice element '' @ Itoa i @ '': '' @ err"
      by simp_all
    with hr Error have "0 < length (s # split)
      \<and> slice_loop L et w (take 0 (s # split)) i h cur = (x, NoError)
      \<and> slice_loop L et w (take (Suc 0) (s # split)) i h cur = (x, Error e)"
      by simp
    then show ?thesis by blast
  next
    case Panic
    with hr Cons.prems show ?thesis by simp
  qed
qed

lemma map_loop_step:
  "map_loop L kt vt (s # split) m =
     (case map_clause L kt vt s of
        Inl r \<Rightarrow> (VMap m, r)
      | Inr (k, v) \<Rightarrow> map_loop L kt vt split (AList.update k v m))"
  by (simp add: map_clause_def Let_def split: prod.splits outcome.splits)

lemma map_clause_Inl: "map_clause L kt vt s = Inl r \<Longrightarrow> r \<noteq> NoError"
  by (auto simp: map_clause_def Let_def split: prod.splits outcome.splits if_splits)

declare map_loop.simps(2) [simp del]

lemma map_loop_error_at:
  "map_loop L kt vt split m = (x, Error e) \<Longrightarrow>
   \<exists>n<length split. map_loop L kt vt (take n split) m = (x, NoError)
                    \<and> map_loop L kt vt (take (Suc n) split) m = (x, Error e)"
proof (induction split arbitrary: m)
  case Nil
  then show ?case by simp
next
  case (Cons s split)
  show ?case
  proof (cases "map_clause L kt vt s")
    case (Inl r)
    with Cons.prems have "x = VMap m" and "r = Error e" by (simp_all add: map_loop_step)
    with Inl have "0 < length (s # split)
      \<and> map_loop L kt vt (take 0 (s # split)) m = (x, NoError)
      \<and> map_loop L kt vt (take (Suc 0) (s # split)) m = (x, Error e)"
      by (simp add: map_loop_step)
    then show ?thesis by blast
  next
    case (Inr kv)
    obtain k v where kv: "kv = (k, v)" by (cases kv)
    with Inr Cons.prems have "map_loop L kt vt split (AList.update k v m) = (x, Error e)"
      by (simp add: map_loop_step)
    from Cons.IH [OF this] obtain n where "n < length split"
      and "map_loop L kt vt (take n split) (AList.update k v m) = (x, NoError)"
      and "map_loop L kt vt (take (Suc n) split) (AList.update k v m) = (x, Error e)"
      by blast
    with Inr kv have "Suc n < length (s # split)
      \<and> map_loop L kt vt (take (Suc n) (s # split)) m = (x, NoError)
      \<and> map_loop L kt vt (take (Suc (Suc n)) (s # split)) m = (x, Error e)"
      by (simp add: map_loop_step)
    then show ?thesis by blast
  qed
qed

lemma slice_loop_NoError_shape:
  "slice_loop L et w split i h cur = (x, NoError) \<Longrightarrow>
   (if split = [] then x = cur
    else \<exists>ys. x = VSlice (elems cur @ ys) \<and> length ys = length split)"
proof (induction split arbitrary: i h cur)
  case Nil
  then show ?case by simp
next
  case (Cons s split)
  obtain h' r where hr: "setConfigValueHelper L (TrimSpace s) et True h = (h', r)"
    by (cases "setConfigValueHelper L (TrimSpace s) et True h")
  with Cons.prems have "r = NoError" by (cases r) simp_all
  with hr Cons.prems have rec: "slice_loop L et w split (Suc i) h' (Append cur h') = (x, NoError)"
    by (simp split: if_splits)
  have "\<exists>ys. x = VSlice (elems cur @ ys) \<and> length ys = Suc (length split)"
  proof (cases "split = []")
    case True
    with Cons.IH [OF rec] have "x = VSlice (elems cur @ [h']) \<and> length [h'] = Suc (length split)"
      by (simp add: Append_def)
    then show ?thesis by blast
  next
    case False
    with Cons.IH [OF rec] obtain ys where "x = VSlice (elems (Append cur h') @ ys)"
      and "length ys = length split" by auto
    then have "x = VSlice (elems cur @ (h' # ys)) \<and> length (h' # ys) = Suc (length split)"
      by (simp add: Append_def)
    then show ?thesis by blast
  qed
  then show ?case by simp
qed

lemma length_update_le: "length (AList.update k v m) \<le> Suc (length m)"
  by (induction m) auto

lemma map_loop_NoError_shape:
  "map_loop L kt vt split m = (x, NoError) \<Longrightarrow>
   \<exists>m'. x = VMap m' \<and> length m' \<le> length m + length split"
proof (induction split arbitrary: m)
  case Nil
  then show ?case by auto
next
  case (Cons s split)
  show ?case
  proof (cases "map_clause L kt vt s")
    case (Inl r)
    with Cons.prems map_clause_Inl [OF Inl] show ?thesis by (simp add: map_loop_step)
  next
    case (Inr kv)
    obtain k v where kv: "kv = (k, v)" by (cases kv)
    with Inr Cons.prems have "map_loop L kt vt split (AList.update k v m) = (x, NoError)"
      by (simp add: map_loop_step)
    from Cons.IH [OF this] obtain m' where "x = VMap m'"
      and "length m' \<le> length (AList.update k v m) + length split" by blast
    with length_update_le [of k v m] have "x = VMap m' \<and> length m' \<le> length m + length (s # split)"
      by simp
    then show ?thesis by blast
  qed
qed

lemma convert_first_shape:
  assumes "elementwise ty" and "n < length (Split val elemSeparator)"
    and "convert_first L n val ty w cur = (x, NoError)"
  shows "left_shape ty cur n x"
proof (cases ty)
  case (TMap kt vt)
  with assms(3) have "map_loop L kt vt (take n (Split val elemSeparator)) [] = (x, NoError)"
    by simp
  from map_loop_NoError_shape [OF this] assms(2) TMap show ?thesis by auto
next
  case (TSlice et)
  with assms(3) have "slice_loop L et w (take n (Split val elemSeparator)) 0 (zero et) cur
                      = (x, NoError)"
    by simp
  from slice_loop_NoError_shape [OF this] assms(2) TSlice show ?thesis
    by (cases "n = 0") (auto simp: Split_not_Nil split: if_splits)
qed (use assms(1) in simp_all)

lemma unmarshal_field_error:
  "unmarshal_field L val ty w cur = (x, Error e) \<Longrightarrow> x = cur"
  by (auto simp: unmarshal_field_def split: if_splits jres.splits)

lemma helper_error_at:
  assumes "setConfigValueHelper L val ty w cur = (x, Error e)"
  shows "if elementwise ty
         then \<exists>n<length (Split val elemSeparator).
                convert_first L n val ty w cur = (x, NoError)
                \<and> convert_first L (Suc n) val ty w cur = (x, Error e)
         else x = cur"
proof (cases ty)
  case (TMap kt vt)
  with assms show ?thesis by (auto split: if_splits dest: map_loop_error_at)
next
  case (TSlice et)
  with assms show ?thesis by (auto split: if_splits dest: slice_loop_error_at)
qed (use assms in \<open>auto split: if_splits dest: unmarshal_field_error\<close>)


lemma setValue_no_conversion:
  assumes "configParamValue sc p = (v, True) \<and> IsDeprecated p
           \<or> configParamValue sc p = (v, False) \<and> Default p = []"
  shows "fst (setValue L sc field p) = field"
  using assms
proof (elim disjE conjE)
  assume "configParamValue sc p = (v, True)" "IsDeprecated p"
  then show ?thesis unfolding setValue_def by simp
next
  assume "configParamValue sc p = (v, False)" "Default p = []"
  then show ?thesis unfolding setValue_def by simp
qed

lemma slice_loop_append_NoError:
  "slice_loop L et w (xs @ ys) i h cur = (x, NoError) \<Longrightarrow>
   \<exists>x'. slice_loop L et w xs i h cur = (x', NoError)"
proof (induction xs arbitrary: i h cur)
  case Nil
  show ?case by simp
next
  case (Cons s xs)
  obtain h' r where hr: "setConfigValueHelper L (TrimSpace s) et True h = (h', r)"
    by (cases "setConfigValueHelper L (TrimSpace s) et True h")
  with Cons.prems have "r = NoError" by (cases r) simp_all
  with hr Cons.prems have w: "w"
    and rec: "slice_loop L et w (xs @ ys) (Suc i) h' (Append cur h') = (x, NoError)"
    by (simp_all split: if_splits)
  from Cons.IH [OF rec] hr \<open>r = NoError\<close> w show ?case by simp
qed

lemma map_loop_append_NoError:
  "map_loop L kt vt (xs @ ys) m = (x, NoError) \<Longrightarrow>
   \<exists>x'. map_loop L kt vt xs m = (x', NoError)"
proof (induction xs arbitrary: m)
  case Nil
  show ?case by simp
next
  case (Cons s xs)
  show ?case
  proof (cases "map_clause L kt vt s")
    case (Inl r)
    with Cons.prems map_clause_Inl [OF Inl] show ?thesis by (simp add: map_loop_step)
  next
    case (Inr kv)
    obtain k v where kv: "kv = (k, v)" by (cases kv)
    with Inr Cons.prems have "map_loop L kt vt (xs @ ys) (AList.update k v m) = (x, NoError)"
      by (simp add: map_loop_step)
    from Cons.IH [OF this] Inr kv show ?thesis by (simp add: map_loop_step)
  qed
qed

lemma convert_first_shorter:
  assumes "convert_first L n val ty w cur = (x, NoError)" and "m \<le> n"
  shows "snd (convert_first L m val ty w cur) = NoError"
proof -
  let ?parts = "Split val elemSeparator"
  from assms(2) have t: "take n ?parts = take m ?parts @ take (n - m) (drop m ?parts)"
    by (metis le_add_diff_inverse take_add)
  show ?thesis
  proof (cases ty)
    case (TMap kt vt)
    with assms(1) t have "map_loop L kt vt (take m ?parts @ take (n - m) (drop m ?parts)) []
                          = (x, NoError)" by simp
    from map_loop_append_NoError [OF this] TMap show ?thesis by auto
  next
    case (TSlice et)
    with assms(1) t have "slice_loop L et w (take m ?parts @ take (n - m) (drop m ?parts)) 0
                            (zero et) cur = (x, NoError)" by simp
    from slice_loop_append_NoError [OF this] TSlice show ?thesis by auto
  qed simp_all
qed

lemma setValue_conversion_error_msg:
  assumes c: "configParamValue sc p = (v, True) \<and> \<not> IsDeprecated p \<and> val = v
           \<or> configParamValue sc p = (v, False) \<and> Default p \<noteq> [] \<and> val = Default p"
    and e: "setValue L sc field p = (field', Error e)"
  shows "\<exists>x err. setConfigValueHelper L val (ftype field) (exported field) (fval field) = (x, Error err)
           \<and> e = ''unable to set param '' @ fmt_q L (Name p) @ '' value '' @ fmt_q L val @ '': '' @ err
           \<and> field' = field\<lparr>fval := x\<rparr>"
proof -
  obtain x r where h: "setConfigValueHelper L val (ftype field) (exported field) (fval field) = (x, r)"
    by (cases "setConfigValueHelper L val (ftype field) (exported field) (fval field)")
  from e show ?thesis
    unfolding setValue_convert [OF c] h by (cases r) auto
qed

text \<open>
  Claim C1, as the code has it.  When materialization of a field returns an error, the
  field holds the value it had before the call in two cases: the error is the
  deprecation or the missing-parameter error, which come before the conversion; or the
  type of the field is not of kind map or slice, or is \<open>[]byte\<close> or \<open>[]rune\<close>.  In the
  remaining case the conversion failed at one element of the raw value, the first that
  does not convert, say the one with index \<open>n\<close>: converting only the \<open>n\<close> elements
  before it succeeds, and the field holds exactly what that leaves in it, a new map with
  entries of these \<open>n\<close> clauses only, or (for \<open>n > 0\<close>) the slice it held with \<open>n\<close>
  elements appended; the error returned wraps the error of element \<open>n\<close>.
\<close>

theorem error_leaves_converted_prefix:
  assumes "setValue L sc field p = (field', Error e)"
  shows "if reaches_conversion sc p \<and> elementwise (ftype field)
         then \<exists>n x err.
                n < length (Split (raw_value sc p) elemSeparator)
                \<and> convert_first L n (raw_value sc p) (ftype field) (exported field) (fval field)
                   = (x, NoError)
                \<and> convert_first L (Suc n) (raw_value sc p) (ftype field) (exported field) (fval field)
                   = (x, Error err)
                \<and> (\<forall>m\<le>n. snd (convert_first L m (raw_value sc p) (ftype field) (exported field)
                                  (fval field)) = NoError)
                \<and> left_shape (ftype field) (fval field) n x
                \<and> e = ''unable to set param '' @ fmt_q L (Name p) @ '' value ''
                       @ fmt_q L (raw_value sc p) @ '': '' @ err
                \<and> field' = field\<lparr>fval := x\<rparr>
         else field' = field"
proof -
  obtain v ex where cp: "configParamValue sc p = (v, ex)" by (cases "configParamValue sc p")
  show ?thesis
  proof (cases "reaches_conversion sc p")
    case False
    with cp have "configParamValue sc p = (v, True) \<and> IsDeprecated p
           \<or> configParamValue sc p = (v, False) \<and> Default p = []"
      by (cases ex) (simp_all add: reaches_conversion_def)
    then have "fst (setValue L sc field p) = field" by (rule setValue_no_conversion)
    with assms False show ?thesis by simp
  next
    case True
    with cp have c: "configParamValue sc p = (v, True) \<and> \<not> IsDeprecated p \<and> raw_value sc p = v
           \<or> configParamValue sc p = (v, False) \<and> Default p \<noteq> [] \<and> raw_value sc p = Default p"
      by (cases ex) (simp_all add: reaches_conversion_def raw_value_def)
    from setValue_conversion_error_msg [OF c assms] obtain x err
      where h: "setConfigValueHelper L (raw_value sc p) (ftype field) (exported field) (fval field)
                = (x, Error err)"
        and m: "e = ''unable to set param '' @ fmt_q L (Name p) @ '' value ''
                    @ fmt_q L (raw_value sc p) @ '': '' @ err"
        and f: "field' = field\<lparr>fval := x\<rparr>" by blast
    show ?thesis
    proof (cases "elementwise (ftype field)")
      case False
      with helper_error_at [OF h] f show ?thesis by simp
    next
      case el: True
      with helper_error_at [OF h] obtain n
        where n: "n < length (Split (raw_value sc p) elemSeparator)"
          and a: "convert_first L n (raw_value sc p) (ftype field) (exported field) (fval field)
                  = (x, NoError)"
          and b: "convert_first L (Suc n) (raw_value sc p) (ftype field) (exported field) (fval field)
                  = (x, Error err)"
        by auto
      from convert_first_shape [OF el n a] have s: "left_shape (ftype field) (fval field) n x" .
      have "\<forall>m\<le>n. snd (convert_first L m (raw_value sc p) (ftype field) (exported field)
                           (fval field)) = NoError"
        using convert_first_shorter [OF a] by blast
      with n a b s m f have "\<exists>n x err.
                n < length (Split (raw_value sc p) elemSeparator)
                \<and> convert_first L n (raw_value sc p) (ftype field) (exported field) (fval field)
                   = (x, NoError)
                \<and> convert_first L (Suc n) (raw_value sc p) (ftype field) (exported field) (fval field)
                   = (x, Error err)
                \<and> (\<forall>m\<le>n. snd (convert_first L m (raw_value sc p) (ftype field) (exported field)
                                  (fval field)) = NoError)
                \<and> left_shape (ftype field) (fval field) n x
                \<and> e = ''unable to set param '' @ fmt_q L (Name p) @ '' value ''
                       @ fmt_q L (raw_value sc p) @ '': '' @ err
                \<and> field' = field\<lparr>fval := x\<rparr>"
        by blast
      with True el show ?thesis by simp
    qed
  qed
qed


lemma setValue_bad_map:
  "setValue test_lib sc_partial map_field (required_param ''mapVal'' [TriggerMetadataPO])
   = (map_field\<lparr>fval := VMap [(VString ''key1'', VInt 1)]\<rparr>,
      Error (''unable to set param '' @ quote_plain ''mapVal'' @ '' value ''
             @ quote_plain ''key1=1,bad'' @ '': expected format key=value, got ''
             @ quote_plain ''bad''))"
  by code_simp

lemma setValue_bad_slice:
  "fst (setValue test_lib sc_partial slice_field (required_param ''sliceVal'' [TriggerMetadataPO]))
   = slice_field\<lparr>fval := VSlice [VInt 1, VInt 2]\<rparr>
   \<and> is_Error (snd (setValue test_lib sc_partial slice_field
                      (required_param ''sliceVal'' [TriggerMetadataPO])))"
  by code_simp

text \<open>The map field was nil and holds the entry of the first clause after the error; the
  slice field was nil and holds the first two elements after the error.\<close>

theorem partial_container_counterexample:
  "fval map_field = VNil
   \<and> setValue test_lib sc_partial map_field (required_param ''mapVal'' [TriggerMetadataPO])
     = (map_field\<lparr>fval := VMap [(VString ''key1'', VInt 1)]\<rparr>,
        Error (''unable to set param '' @ quote_plain ''mapVal'' @ '' value ''
               @ quote_plain ''key1=1,bad'' @ '': expected format key=value, got ''
               @ quote_plain ''bad''))
   \<and> fval slice_field = VNil
   \<and> fst (setValue test_lib sc_partial slice_field (required_param ''sliceVal'' [TriggerMetadataPO]))
     = slice_field\<lparr>fval := VSlice [VInt 1, VInt 2]\<rparr>
   \<and> is_Error (snd (setValue test_lib sc_partial slice_field
                      (required_param ''sliceVal'' [TriggerMetadataPO])))"
  using setValue_bad_map setValue_bad_slice by (simp add: map_field_def slice_field_def)

text \<open>The same call: the second clause is the first that fails, and the map field holds
  what converting the first clause alone leaves.  With the empty bundle the error is the
  missing-parameter error, and the field is as it was.\<close>

lemma setValue_missing_map:
  "snd (setValue test_lib sc_empty map_field (required_param ''mapVal'' [TriggerMetadataPO]))
   = Error (''missing required parameter '' @ quote_plain ''mapVal'' @ '' in [triggerMetadata]'')"
  by code_simp

theorem error_leaves_converted_prefix_witness:
  "setValue test_lib sc_partial map_field (required_param ''mapVal'' [TriggerMetadataPO])
     = (map_field\<lparr>fval := VMap [(VString ''key1'', VInt 1)]\<rparr>,
        Error (''unable to set param '' @ quote_plain ''mapVal'' @ '' value ''
               @ quote_plain ''key1=1,bad'' @ '': expected format key=value, got ''
               @ quote_plain ''bad''))
   \<and> reaches_conversion sc_partial (required_param ''mapVal'' [TriggerMetadataPO])
   \<and> elementwise (ftype map_field)
   \<and> raw_value sc_partial (required_param ''mapVal'' [TriggerMetadataPO]) = ''key1=1,bad''
   \<and> convert_first test_lib 1 ''key1=1,bad'' (ftype map_field) (exported map_field) (fval map_field)
     = (VMap [(VString ''key1'', VInt 1)], NoError)
   \<and> convert_first test_lib 2 ''key1=1,bad'' (ftype map_field) (exported map_field) (fval map_field)
     = (VMap [(VString ''key1'', VInt 1)],
        Error (''expected format key=value, got '' @ quote_plain ''bad''))
   \<and> (\<exists>n x err.
         n < length (Split ''key1=1,bad'' elemSeparator)
         \<and> convert_first test_lib n ''key1=1,bad'' (ftype map_field) (exported map_field)
              (fval map_field) = (x, NoError)
         \<and> convert_first test_lib (Suc n) ''key1=1,bad'' (ftype map_field) (exported map_field)
              (fval map_field) = (x, Error err)
         \<and> left_shape (ftype map_field) (fval map_field) n x
         \<and> map_field\<lparr>fval := VMap [(VString ''key1'', VInt 1)]\<rparr> = map_field\<lparr>fval := x\<rparr>)
   \<and> \<not> reaches_conversion sc_empty (required_param ''mapVal'' [TriggerMetadataPO])
   \<and> fst (setValue test_lib sc_empty map_field (required_param ''mapVal'' [TriggerMetadataPO]))
     = map_field"
proof -
  let ?q = "required_param ''mapVal'' [TriggerMetadataPO]"
  have rc: "reaches_conversion sc_partial ?q" by code_simp
  have el: "elementwise (ftype map_field)" by (simp add: map_field_def)
  have rv: "raw_value sc_partial ?q = ''key1=1,bad''" by code_simp
  have c1: "convert_first test_lib 1 ''key1=1,bad'' (ftype map_field) (exported map_field)
              (fval map_field) = (VMap [(VString ''key1'', VInt 1)], NoError)"
    by code_simp
  have c2: "convert_first test_lib 2 ''key1=1,bad'' (ftype map_field) (exported map_field)
              (fval map_field)
            = (VMap [(VString ''key1'', VInt 1)],
               Error (''expected format key=value, got '' @ quote_plain ''bad''))"
    by code_simp
  have nr: "\<not> reaches_conversion sc_empty ?q" by code_simp
  from error_leaves_converted_prefix [OF setValue_bad_map] rc el rv
  have ex: "\<exists>n x err.
         n < length (Split ''key1=1,bad'' elemSeparator)
         \<and> convert_first test_lib n ''key1=1,bad'' (ftype map_field) (exported map_field)
              (fval map_field) = (x, NoError)
         \<and> convert_first test_lib (Suc n) ''key1=1,bad'' (ftype map_field) (exported map_field)
              (fval map_field) = (x, Error err)
         \<and> left_shape (ftype map_field) (fval map_field) n x
         \<and> map_field\<lparr>fval := VMap [(VString ''key1'', VInt 1)]\<rparr> = map_field\<lparr>fval := x\<rparr>"
    by (simp only: simp_thms if_True) blast
  obtain f' where f': "setValue test_lib sc_empty map_field ?q
      = (f', Error (''missing required parameter '' @ quote_plain ''mapVal''
                    @ '' in [triggerMetadata]''))"
    using setValue_missing_map by (cases "setValue test_lib sc_empty map_field ?q") simp
  from error_leaves_converted_prefix [OF f'] nr have "f' = map_field" by simp
  with f' have ms: "fst (setValue test_lib sc_empty map_field ?q) = map_field" by simp
  from setValue_bad_map rc el rv c1 c2 ex nr ms show ?thesis by blast
qed

subsection \<open>Maps and slices\<close>

lemma map_clause_trim:
  "TrimSpace s1 = TrimSpace s2 \<Longrightarrow> map_clause L kt vt s1 = map_clause L kt vt s2"
  by (simp add: map_clause_def)

lemma map_loop_trim:
  "map TrimSpace split1 = map TrimSpace split2 \<Longrightarrow>
   map_loop L kt vt split1 m = map_loop L kt vt split2 m"
proof (induction split1 arbitrary: split2 m)
  case Nil
  then show ?case by simp
next
  case (Cons s split1)
  then obtain t split2' where s2: "split2 = t # split2'" by (cases split2) auto
  with Cons.prems have "TrimSpace s = TrimSpace t" "map TrimSpace split1 = map TrimSpace split2'"
    by simp_all
  then show ?case
    using Cons.IH [of split2'] s2
    by (simp add: map_loop_step map_clause_trim [of s t] split: sum.splits prod.splits)
qed

lemma slice_loop_trim:
  "map TrimSpace split1 = map TrimSpace split2 \<Longrightarrow>
   slice_loop L et w split1 i h cur = slice_loop L et w split2 i h cur"
proof (induction split1 arbitrary: split2 i h cur)
  case Nil
  then show ?case by simp
next
  case (Cons s split1)
  then obtain t split2' where s2: "split2 = t # split2'" by (cases split2) auto
  with Cons.prems have "TrimSpace s = TrimSpace t" "map TrimSpace split1 = map TrimSpace split2'"
    by simp_all
  then show ?case
    using Cons.IH [of split2'] s2
    by (cases w) (simp_all split: prod.splits outcome.splits)
qed

lemma map_clause_int:
  assumes "TrimSpace s = s'" and "Split s' elemKeyValSeparator = [k, v]"
    and "TrimSpace k = key" and "TrimSpace v = val"
    and "json_Unmarshal L TInt val = JVal (VInt n)"
  shows "map_clause L TString TInt s = Inr (VString key, VInt n)"
  using assms by (simp add: map_clause_def unmarshal_field_def)

lemma slice_loop_int:
  assumes "TrimSpace s = val" and "json_Unmarshal L TInt val = JVal (VInt n)"
  shows "slice_loop L TInt True (s # split) i h cur
         = slice_loop L TInt True split (Suc i) (VInt n) (Append cur (VInt n))"
  using assms by (simp add: unmarshal_field_def)

text \<open>
  Claim C9, as the code has it.  With a decoder that reads \<open>1\<close>, \<open>2\<close> and \<open>3\<close> as these
  integers, the raw text \<open>key1=1,key2=2\<close> converted into a field of type
  \<open>map[string]int\<close> succeeds and gives the map with exactly the entries \<open>key1 \<mapsto> 1\<close> and
  \<open>key2 \<mapsto> 2\<close>, whatever the field held.  The raw text \<open>1,2,3\<close> converted into a field of
  type \<open>[]int\<close> succeeds and appends 1, 2, 3 in this order to the elements that the field
  held; so a field that held no element, as in a new struct, ends as exactly
  \<open>[1, 2, 3]\<close>.  White space around elements, keys and values is trimmed before they are
  converted: the same texts with blanks added give the same results, and the two loops
  depend on the elements only through their trimmed forms.
\<close>

theorem map_and_slice_round_trip:
  assumes "json_Unmarshal L TInt ''1'' = JVal (VInt 1)"
    and "json_Unmarshal L TInt ''2'' = JVal (VInt 2)"
    and "json_Unmarshal L TInt ''3'' = JVal (VInt 3)"
  shows "setConfigValueHelper L ''key1=1,key2=2'' (TMap TString TInt) True cur
         = (VMap [(VString ''key1'', VInt 1), (VString ''key2'', VInt 2)], NoError)
       \<and> setConfigValueHelper L ''1,2,3'' (TSlice TInt) True cur
         = (VSlice (elems cur @ [VInt 1, VInt 2, VInt 3]), NoError)
       \<and> (elems cur = [] \<longrightarrow>
            setConfigValueHelper L ''1,2,3'' (TSlice TInt) True cur
            = (VSlice [VInt 1, VInt 2, VInt 3], NoError))
       \<and> setConfigValueHelper L '' key1 = 1 , key2= 2 '' (TMap TString TInt) True cur
         = (VMap [(VString ''key1'', VInt 1), (VString ''key2'', VInt 2)], NoError)
       \<and> setConfigValueHelper L '' 1, 2 ,3  '' (TSlice TInt) True cur
         = (VSlice (elems cur @ [VInt 1, VInt 2, VInt 3]), NoError)
       \<and> (\<forall>kt vt split1 split2 m. map TrimSpace split1 = map TrimSpace split2 \<longrightarrow>
            map_loop L kt vt split1 m = map_loop L kt vt split2 m)
       \<and> (\<forall>et w split1 split2 i h c. map TrimSpace split1 = map TrimSpace split2 \<longrightarrow>
            slice_loop L et w split1 i h c = slice_loop L et w split2 i h c)"
proof -
  have m1: "setConfigValueHelper L ''key1=1,key2=2'' (TMap TString TInt) True cur
         = (VMap [(VString ''key1'', VInt 1), (VString ''key2'', VInt 2)], NoError)"
  proof -
    have "Split ''key1=1,key2=2'' elemSeparator = [''key1=1'', ''key2=2'']" by code_simp
    moreover have "map_clause L TString TInt ''key1=1'' = Inr (VString ''key1'', VInt 1)"
      by (rule map_clause_int [where s' = "''key1=1''" and k = "''key1''" and v = "''1''"])
         (code_simp, code_simp, code_simp, code_simp, rule assms)
    moreover have "map_clause L TString TInt ''key2=2'' = Inr (VString ''key2'', VInt 2)"
      by (rule map_clause_int [where s' = "''key2=2''" and k = "''key2''" and v = "''2''"])
         (code_simp, code_simp, code_simp, code_simp, rule assms)
    ultimately show ?thesis by (simp add: map_loop_step)
  qed
  have m2: "setConfigValueHelper L '' key1 = 1 , key2= 2 '' (TMap TString TInt) True cur
         = (VMap [(VString ''key1'', VInt 1), (VString ''key2'', VInt 2)], NoError)"
  proof -
    have "Split '' key1 = 1 , key2= 2 '' elemSeparator = ['' key1 = 1 '', '' key2= 2 '']"
      by code_simp
    moreover have "map_clause L TString TInt '' key1 = 1 '' = Inr (VString ''key1'', VInt 1)"
      by (rule map_clause_int [where s' = "''key1 = 1''" and k = "''key1 ''" and v = "'' 1''"])
         (code_simp, code_simp, code_simp, code_simp, rule assms)
    moreover have "map_clause L TString TInt '' key2= 2 '' = Inr (VString ''key2'', VInt 2)"
      by (rule map_clause_int [where s' = "''key2= 2''" and k = "''key2''" and v = "'' 2''"])
         (code_simp, code_simp, code_simp, code_simp, rule assms)
    ultimately show ?thesis by (simp add: map_loop_step)
  qed
  have s1: "setConfigValueHelper L ''1,2,3'' (TSlice TInt) True cur
         = (VSlice (elems cur @ [VInt 1, VInt 2, VInt 3]), NoError)"
  proof -
    have sp: "Split ''1,2,3'' elemSeparator = [''1'', ''2'', ''3'']" by code_simp
    have t1: "TrimSpace ''1'' = ''1''" and t2: "TrimSpace ''2'' = ''2''"
      and t3: "TrimSpace ''3'' = ''3''"
      by code_simp+
    show ?thesis
      by (simp add: sp slice_loop_int [OF t1 assms(1)] slice_loop_int [OF t2 assms(2)]
            slice_loop_int [OF t3 assms(3)] Append_def del: slice_loop.simps(2))
  qed
  have s2: "setConfigValueHelper L '' 1, 2 ,3  '' (TSlice TInt) True cur
         = (VSlice (elems cur @ [VInt 1, VInt 2, VInt 3]), NoError)"
  proof -
    have sp: "Split '' 1, 2 ,3  '' elemSeparator = ['' 1'', '' 2 '', ''3  '']" by code_simp
    have t1: "TrimSpace '' 1'' = ''1''" and t2: "TrimSpace '' 2 '' = ''2''"
      and t3: "TrimSpace ''3  '' = ''3''"
      by code_simp+
    show ?thesis
      by (simp add: sp slice_loop_int [OF t1 assms(1)] slice_loop_int [OF t2 assms(2)]
            slice_loop_int [OF t3 assms(3)] Append_def del: slice_loop.simps(2))
  qed
  from s1 have s3: "elems cur = [] \<longrightarrow>
            setConfigValueHelper L ''1,2,3'' (TSlice TInt) True cur
            = (VSlice [VInt 1, VInt 2, VInt 3], NoError)"
    by simp
  have tm: "\<forall>kt vt split1 split2 m. map TrimSpace split1 = map TrimSpace split2 \<longrightarrow>
            map_loop L kt vt split1 m = map_loop L kt vt split2 m"
    using map_loop_trim by blast
  have ts: "\<forall>et w split1 split2 i h c. map TrimSpace split1 = map TrimSpace split2 \<longrightarrow>
            slice_loop L et w split1 i h c = slice_loop L et w split2 i h c"
    using slice_loop_trim by blast
  from m1 s1 s3 m2 s2 tm ts show ?thesis by blast
qed

text \<open>\<open>TestMap\<close> and \<open>TestSlice\<close>, with the decoder of the test instance, and a slice field
  that holds \<open>[9]\<close>.\<close>

theorem map_and_slice_round_trip_witness:
  "json_Unmarshal test_lib TInt ''1'' = JVal (VInt 1)
   \<and> json_Unmarshal test_lib TInt ''2'' = JVal (VInt 2)
   \<and> json_Unmarshal test_lib TInt ''3'' = JVal (VInt 3)
   \<and> setConfigValueHelper test_lib ''key1=1,key2=2'' (TMap TString TInt) True VNil
     = (VMap [(VString ''key1'', VInt 1), (VString ''key2'', VInt 2)], NoError)
   \<and> elems VNil = []
   \<and> setConfigValueHelper test_lib ''1,2,3'' (TSlice TInt) True VNil
     = (VSlice [VInt 1, VInt 2, VInt 3], NoError)
   \<and> setConfigValueHelper test_lib ''1,2,3'' (TSlice TInt) True (VSlice [VInt 9])
     = (VSlice [VInt 9, VInt 1, VInt 2, VInt 3], NoError)
   \<and> map TrimSpace ['' 1'', ''2 ''] = map TrimSpace [''1'', ''2'']
   \<and> slice_loop test_lib TInt True ['' 1'', ''2 ''] 0 (VInt 0) VNil
     = slice_loop test_lib TInt True [''1'', ''2''] 0 (VInt 0) VNil"
proof -
  have a: "json_Unmarshal test_lib TInt ''1'' = JVal (VInt 1)"
    "json_Unmarshal test_lib TInt ''2'' = JVal (VInt 2)"
    "json_Unmarshal test_lib TInt ''3'' = JVal (VInt 3)"
    by code_simp+
  have t: "map TrimSpace ['' 1'', ''2 ''] = map TrimSpace [''1'', ''2'']" by code_simp
  have e: "elems VNil = []" by simp
  from map_and_slice_round_trip [OF a, of "VSlice [VInt 9]"]
  have n: "setConfigValueHelper test_lib ''1,2,3'' (TSlice TInt) True (VSlice [VInt 9])
     = (VSlice [VInt 9, VInt 1, VInt 2, VInt 3], NoError)"
    by simp
  from map_and_slice_round_trip [OF a, of VNil] a t e n show ?thesis by blast
qed

text \<open>\<open>TestSlice\<close> with a struct whose slice field holds \<open>[9]\<close> before the call: the call
  succeeds and the field ends as \<open>[9, 1, 2, 3]\<close>, not as \<open>[1, 2, 3]\<close>.\<close>

theorem prepopulated_slice_counterexample:
  "fst (TypedConfig test_lib sc_TestSlice (PtrToStruct [slice_field\<lparr>fval := VSlice [VInt 9]\<rparr>]))
     = PtrToStruct [slice_field\<lparr>fval := VSlice [VInt 9, VInt 1, VInt 2, VInt 3]\<rparr>]
   \<and> snd (TypedConfig test_lib sc_TestSlice (PtrToStruct [slice_field\<lparr>fval := VSlice [VInt 9]\<rparr>]))
     = RNil
   \<and> VSlice [VInt 9, VInt 1, VInt 2, VInt 3] \<noteq> VSlice [VInt 1, VInt 2, VInt 3]"
proof -
  have "TypedConfig test_lib sc_TestSlice (PtrToStruct [slice_field\<lparr>fval := VSlice [VInt 9]\<rparr>])
        = (PtrToStruct [slice_field\<lparr>fval := VSlice [VInt 9, VInt 1, VInt 2, VInt 3]\<rparr>], RNil)"
    by code_simp
  then show ?thesis by simp
qed

section \<open>Properties of TypedConfig\<close>

lemma TypedConfig_loop_no_panic:
  "\<forall>f\<in>set flds. snd (TypedConfig_field L sc f) \<noteq> Panic \<Longrightarrow>
   TypedConfig_loop L sc flds errs
   = (map (\<lambda>f. fst (TypedConfig_field L sc f)) flds, NewAggregate (errs @ field_errors L sc flds))"
proof (induction flds arbitrary: errs)
  case Nil
  show ?case by (simp add: field_errors_def)
next
  case (Cons f flds)
  obtain f' r where fr: "TypedConfig_field L sc f = (f', r)" by (cases "TypedConfig_field L sc f")
  with Cons.prems have "r \<noteq> Panic" by simp
  moreover have "TypedConfig_loop L sc flds es
     = (map (\<lambda>f. fst (TypedConfig_field L sc f)) flds, NewAggregate (es @ field_errors L sc flds))" for es
    using Cons by simp
  ultimately show ?case using fr by (cases r) (simp_all add: field_errors_def)
qed

lemma TypedConfig_loop_panic:
  assumes "\<forall>g\<in>set pre. snd (TypedConfig_field L sc g) \<noteq> Panic"
    and "snd (TypedConfig_field L sc f) = Panic"
  shows "TypedConfig_loop L sc (pre @ f # post) errs
         = (map (\<lambda>g. fst (TypedConfig_field L sc g)) pre @ fst (TypedConfig_field L sc f) # post,
            RPanic)"
  using assms
proof (induction pre arbitrary: errs)
  case Nil
  obtain f' r where "TypedConfig_field L sc f = (f', r)" by (cases "TypedConfig_field L sc f")
  with Nil show ?case by simp
next
  case (Cons g pre)
  obtain g' r where gr: "TypedConfig_field L sc g = (g', r)" by (cases "TypedConfig_field L sc g")
  with Cons.prems have "r \<noteq> Panic" by simp
  moreover have "TypedConfig_loop L sc (pre @ f # post) es
      = (map (\<lambda>g. fst (TypedConfig_field L sc g)) pre @ fst (TypedConfig_field L sc f) # post,
         RPanic)" for es
    using Cons by simp
  ultimately show ?case using gr by (cases r) simp_all
qed

text \<open>
  Claim C7, as the code has it.  For a pointer to a struct, and as long as no field
  makes the conversion panic, \<open>TypedConfig\<close> runs the body of its loop on every field,
  whatever the fields before it returned: each field ends as the body leaves it.  The
  call then returns nil exactly when no field returned an error, and otherwise the
  aggregate that holds the errors of all the fields, in the order of the fields.  For a
  value that is no pointer the call looks at no field and returns the error
  \<open>typedConfig must be a pointer\<close>.
\<close>

theorem TypedConfig_aggregates_field_errors:
  "((\<forall>f\<in>set flds. snd (TypedConfig_field L sc f) \<noteq> Panic) \<longrightarrow>
      TypedConfig L sc (PtrToStruct flds)
      = (PtrToStruct (map (\<lambda>f. fst (TypedConfig_field L sc f)) flds),
         if field_errors L sc flds = [] then RNil else RAggregate (field_errors L sc flds)))
   \<and> TypedConfig L sc NonPointer = (NonPointer, RError ''typedConfig must be a pointer'')"
  by (simp add: TypedConfig_def TypedConfig_loop_no_panic NewAggregate_def)

text \<open>The five fields: the two fields after the failures are set, and both errors are
  returned; without the two failing fields the call returns nil.\<close>

theorem TypedConfig_aggregates_field_errors_witness:
  "list_all (\<lambda>f. snd (TypedConfig_field test_lib sc_scenario f) \<noteq> Panic)
     [f_missing, f_string, f_unknown, f_int, f_untagged]
   \<and> TypedConfig test_lib sc_scenario
        (PtrToStruct [f_missing, f_string, f_unknown, f_int, f_untagged])
     = (PtrToStruct [f_missing, f_string\<lparr>fval := VString ''value1''\<rparr>, f_unknown,
                     f_int\<lparr>fval := VInt 1\<rparr>, f_untagged],
        RAggregate [e_missing, e_unknown])
   \<and> TypedConfig test_lib sc_scenario (PtrToStruct [f_string, f_int, f_untagged])
     = (PtrToStruct [f_string\<lparr>fval := VString ''value1''\<rparr>, f_int\<lparr>fval := VInt 1\<rparr>, f_untagged],
        RNil)"
proof -
  have r: "TypedConfig_field test_lib sc_scenario f_missing = (f_missing, Error e_missing)"
    "TypedConfig_field test_lib sc_scenario f_string = (f_string\<lparr>fval := VString ''value1''\<rparr>, NoError)"
    "TypedConfig_field test_lib sc_scenario f_unknown = (f_unknown, Error e_unknown)"
    "TypedConfig_field test_lib sc_scenario f_int = (f_int\<lparr>fval := VInt 1\<rparr>, NoError)"
    "TypedConfig_field test_lib sc_scenario f_untagged = (f_untagged, NoError)"
    by code_simp+
  have a: "\<forall>f\<in>set [f_missing, f_string, f_unknown, f_int, f_untagged].
             snd (TypedConfig_field test_lib sc_scenario f) \<noteq> Panic"
    by (simp add: r)
  have b: "\<forall>f\<in>set [f_string, f_int, f_untagged].
             snd (TypedConfig_field test_lib sc_scenario f) \<noteq> Panic"
    by (simp add: r)
  show ?thesis
    using a b
      TypedConfig_aggregates_field_errors
        [of "[f_missing, f_string, f_unknown, f_int, f_untagged]" test_lib sc_scenario]
      TypedConfig_aggregates_field_errors [of "[f_string, f_int, f_untagged]" test_lib sc_scenario]
    by (simp add: r field_errors_def)
qed

text \<open>A struct passed by value: no field is looked at, no error of a field is collected,
  and the call returns an error that is no aggregate.\<close>

theorem TypedConfig_non_pointer_counterexample:
  "fst (TypedConfig test_lib sc_scenario NonPointer) = NonPointer
   \<and> snd (TypedConfig test_lib sc_scenario NonPointer) = RError ''typedConfig must be a pointer''
   \<and> snd (TypedConfig test_lib sc_scenario NonPointer) \<noteq> RNil"
  by (simp add: TypedConfig_def)

text \<open>
  The field that makes the conversion panic ends the call: the fields before it are as
  the body of the loop leaves them, the fields after it are not looked at.  The raw
  value \<open>null\<close> for an integer field is such a case: \<open>json.Unmarshal\<close> returns no error
  and leaves the holder nil.
\<close>

lemma TypedConfig_panic:
  assumes "\<forall>g\<in>set pre. snd (TypedConfig_field L sc g) \<noteq> Panic"
    and "snd (TypedConfig_field L sc f) = Panic"
  shows "TypedConfig L sc (PtrToStruct (pre @ f # post))
         = (PtrToStruct (map (\<lambda>g. fst (TypedConfig_field L sc g)) pre
                         @ fst (TypedConfig_field L sc f) # post),
            RPanic)"
  by (simp add: TypedConfig_def TypedConfig_loop_panic [OF assms])

lemma TypedConfig_null_panics:
  "TypedConfig test_lib sc_null (PtrToStruct [f_int, f_string])
   = (PtrToStruct [f_int, f_string], RPanic)"
  by code_simp

end
